theory Spec2Isabelle
  imports Main "HOL-Library.Multiset"
begin

section \<open>Python values and built-ins used by the collector\<close>

text \<open>
  The backend (\<^verbatim>\<open>backend/collectors/syslog_collector.py\<close>) works on Python
  \<^verbatim>\<open>str\<close> and \<^verbatim>\<open>int\<close> values held in \<^verbatim>\<open>dict\<close>s.
  A \<^typ>\<open>char\<close> stands for one code point below 256 (the Latin-1 range of Python's
  \<^verbatim>\<open>str\<close>); code points above 255 are outside the model. The character classes
  below are those of CPython 3 on that range.
\<close>

datatype pyval = PStr string | PInt int

datatype error = ValueError | AttributeError

type_synonym ('k, 'v) dict = "('k \<times> 'v) list"

type_synonym log = "(string, pyval) dict"

text \<open>A \<^verbatim>\<open>dict\<close> keeps its keys in insertion order: assigning to a present key
  replaces the value in place, assigning to a new key appends it.\<close>

fun dict_set :: "('k, 'v) dict \<Rightarrow> 'k \<Rightarrow> 'v \<Rightarrow> ('k, 'v) dict" where
  "dict_set [] k v = [(k, v)]"
| "dict_set ((k', v') # d) k v = (if k' = k then (k', v) # d else (k', v') # dict_set d k v)"

definition dict_get :: "('k, 'v) dict \<Rightarrow> 'k \<Rightarrow> 'v option" where
  "dict_get d k = map_of d k"

definition dict_get_or :: "('k, 'v) dict \<Rightarrow> 'k \<Rightarrow> 'v \<Rightarrow> 'v" where
  "dict_get_or d k dflt = (case map_of d k of None \<Rightarrow> dflt | Some v \<Rightarrow> v)"

definition dict_has :: "('k, 'v) dict \<Rightarrow> 'k \<Rightarrow> bool" where
  "dict_has d k = (case map_of d k of None \<Rightarrow> False | Some v \<Rightarrow> True)"

text \<open>\<^verbatim>\<open>d[k] = d.get(k, 0) + 1\<close>\<close>

definition dict_incr :: "('k, int) dict \<Rightarrow> 'k \<Rightarrow> ('k, int) dict" where
  "dict_incr d k = dict_set d k (dict_get_or d k 0 + 1)"

text \<open>Truthiness of a value, and of the result of \<^verbatim>\<open>log.get(key)\<close>
  (\<^verbatim>\<open>None\<close> when the key is absent).\<close>

fun truthy :: "pyval \<Rightarrow> bool" where
  "truthy (PStr s) = (s \<noteq> [])"
| "truthy (PInt i) = (i \<noteq> 0)"

fun truthy_opt :: "pyval option \<Rightarrow> bool" where
  "truthy_opt None = False"
| "truthy_opt (Some v) = truthy v"

text \<open>\<^verbatim>\<open>a or b\<close>\<close>

definition py_or :: "pyval option \<Rightarrow> pyval option \<Rightarrow> pyval option" where
  "py_or a b = (if truthy_opt a then a else b)"

subsection \<open>Character classes\<close>

definition code :: "char \<Rightarrow> nat" where
  "code c = of_char c"

text \<open>Decimal characters: the ones \<^verbatim>\<open>int()\<close> reads as digits.\<close>

definition is_decimal :: "char \<Rightarrow> bool" where
  "is_decimal c = (48 \<le> code c \<and> code c \<le> 57)"

text \<open>\<^verbatim>\<open>str.isdigit\<close> also accepts the superscript digits U+00B2, U+00B3 and U+00B9,
  which \<^verbatim>\<open>int()\<close> rejects.\<close>

definition is_digit_char :: "char \<Rightarrow> bool" where
  "is_digit_char c = (is_decimal c \<or> code c = 178 \<or> code c = 179 \<or> code c = 185)"

definition isdigit :: "string \<Rightarrow> bool" where
  "isdigit s = (s \<noteq> [] \<and> list_all is_digit_char s)"

text \<open>\<^verbatim>\<open>\w\<close> of the \<^verbatim>\<open>re\<close> module on \<^verbatim>\<open>str\<close> patterns.\<close>

definition is_word_char :: "char \<Rightarrow> bool" where
  "is_word_char c = (let n = code c in
     (48 \<le> n \<and> n \<le> 57) \<or> (65 \<le> n \<and> n \<le> 90) \<or> n = 95 \<or> (97 \<le> n \<and> n \<le> 122) \<or>
     n = 170 \<or> n = 178 \<or> n = 179 \<or> n = 181 \<or> n = 185 \<or> n = 186 \<or>
     n = 188 \<or> n = 189 \<or> n = 190 \<or>
     (192 \<le> n \<and> n \<le> 214) \<or> (216 \<le> n \<and> n \<le> 246) \<or> (248 \<le> n \<and> n \<le> 255))"

text \<open>\<^verbatim>\<open>\s\<close> of the \<^verbatim>\<open>re\<close> module; \<^verbatim>\<open>\S\<close> is its complement.\<close>

definition is_space_char :: "char \<Rightarrow> bool" where
  "is_space_char c = (let n = code c in
     (9 \<le> n \<and> n \<le> 13) \<or> (28 \<le> n \<and> n \<le> 32) \<or> n = 133 \<or> n = 160)"

definition is_nonspace_char :: "char \<Rightarrow> bool" where
  "is_nonspace_char c = (if is_space_char c then False else True)"

text \<open>The whitespace \<^verbatim>\<open>int()\<close> strips around a literal.\<close>

definition is_int_space :: "char \<Rightarrow> bool" where
  "is_int_space c = (let n = code c in (9 \<le> n \<and> n \<le> 13) \<or> n = 32 \<or> n = 133 \<or> n = 160)"

subsection \<open>\<^verbatim>\<open>str.lower\<close>, \<^verbatim>\<open>str()\<close>, \<^verbatim>\<open>int()\<close>, \<^verbatim>\<open>str.split\<close>\<close>

definition lower_char :: "char \<Rightarrow> char" where
  "lower_char c = (let n = code c in
     if (65 \<le> n \<and> n \<le> 90) \<or> (192 \<le> n \<and> n \<le> 214) \<or> (216 \<le> n \<and> n \<le> 222)
     then char_of (n + 32) else c)"

definition lower :: "string \<Rightarrow> string" where
  "lower s = map lower_char s"

definition digit_char :: "nat \<Rightarrow> char" where
  "digit_char n = char_of (48 + n)"

fun nat_digits :: "nat \<Rightarrow> string" where
  "nat_digits n = (if n < 10 then [digit_char n] else nat_digits (n div 10) @ [digit_char (n mod 10)])"

declare nat_digits.simps [simp del]

definition str_of_int :: "int \<Rightarrow> string" where
  "str_of_int i = (if i < 0 then CHR ''-'' # nat_digits (nat (- i)) else nat_digits (nat i))"

text \<open>\<^verbatim>\<open>str(v)\<close>, also what an f-string does with \<^verbatim>\<open>{v}\<close>\<close>

fun str :: "pyval \<Rightarrow> string" where
  "str (PStr s) = s"
| "str (PInt i) = str_of_int i"

definition digit_val :: "char \<Rightarrow> int" where
  "digit_val c = int (code c) - 48"

text \<open>The digits of an integer literal after the first one: decimal characters, with
  single underscores allowed between two of them.\<close>

fun more_digits :: "int \<Rightarrow> string \<Rightarrow> int option" where
  "more_digits acc [] = Some acc"
| "more_digits acc [c] = (if is_decimal c then Some (acc * 10 + digit_val c) else None)"
| "more_digits acc (c # d # ds) =
     (if is_decimal c then more_digits (acc * 10 + digit_val c) (d # ds)
      else if c = CHR ''_'' \<and> is_decimal d then more_digits (acc * 10 + digit_val d) ds
      else None)"

fun unsigned_literal :: "string \<Rightarrow> int option" where
  "unsigned_literal [] = None"
| "unsigned_literal (c # cs) = (if is_decimal c then more_digits (digit_val c) cs else None)"

definition int_strip :: "string \<Rightarrow> string" where
  "int_strip s = rev (dropWhile is_int_space (rev (dropWhile is_int_space s)))"

text \<open>\<^verbatim>\<open>int(s)\<close> in base 10: \<^verbatim>\<open>ValueError\<close> unless \<open>s\<close> is an optionally
  signed decimal literal surrounded by whitespace. CPython 3.11 and later (and the
  security releases of 3.7 to 3.10) also refuse, with \<^verbatim>\<open>ValueError\<close>, a literal of
  more than \<^verbatim>\<open>sys.int_info.default_max_str_digits\<close> digits; the repository
  leaves that setting alone. (\<^verbatim>\<open>str()\<close> has the same limit on an integer it
  prints; no integer the parser stores reaches it, and \<open>str\<close> is modelled without it.)\<close>

definition max_str_digits :: nat where
  "max_str_digits = 4300"

definition literal :: "string \<Rightarrow> error + int" where
  "literal ds =
     (case unsigned_literal ds of
        None \<Rightarrow> Inl ValueError
      | Some n \<Rightarrow> if length (filter is_decimal ds) > max_str_digits then Inl ValueError else Inr n)"

definition int_of_str :: "string \<Rightarrow> error + int" where
  "int_of_str s =
     (case int_strip s of
        [] \<Rightarrow> Inl ValueError
      | c # cs \<Rightarrow>
          (if c = CHR ''+'' then literal cs
           else if c = CHR ''-'' then (case literal cs of Inl e \<Rightarrow> Inl e | Inr n \<Rightarrow> Inr (- n))
           else literal (c # cs)))"

text \<open>\<^verbatim>\<open>s.split(sep)\<close> for a one-character separator.\<close>

fun split_on :: "char \<Rightarrow> string \<Rightarrow> string list" where
  "split_on sep [] = [[]]"
| "split_on sep (c # cs) =
     (if c = sep then [] # split_on sep cs
      else (case split_on sep cs of [] \<Rightarrow> [[c]] | p # ps \<Rightarrow> (c # p) # ps))"

text \<open>\<^verbatim>\<open>xs[start:]\<close>: a negative start counts from the end, and both are clamped.\<close>

definition slice_from :: "'a list \<Rightarrow> int \<Rightarrow> 'a list" where
  "slice_from xs start =
     (if start < 0 then drop (nat (int (length xs) + start)) xs else drop (nat start) xs)"

section \<open>The record parser (\<^verbatim>\<open>FortiGateSyslogCollector\<close>)\<close>

text \<open>
  \<^verbatim>\<open>re.findall(r'(\w+)=(?:"([^"]*)"|([\S]+))', raw)\<close>.
  \<open>match_at s\<close> is one attempt of the pattern at the start of \<open>s\<close>: the three groups
  (an unmatched group is the empty string, as \<^verbatim>\<open>findall\<close> reports it) and the
  text left after the match. \<^verbatim>\<open>\w+\<close> is greedy and no shorter key can be followed
  by \<^verbatim>\<open>=\<close>; the quoted alternative is tried first and needs its closing quote; the
  unquoted one takes the longest run of non-space characters, which must not be empty.
\<close>

definition match_unquoted :: "string \<Rightarrow> string \<Rightarrow> (string \<times> string \<times> string \<times> string) option" where
  "match_unquoted key s =
     (let u = takeWhile is_nonspace_char s in
      if u = [] then None else Some (key, [], u, dropWhile is_nonspace_char s))"

definition is_not_quote :: "char \<Rightarrow> bool" where
  "is_not_quote c = (if c = CHR 0x22 then False else True)"

definition match_value :: "string \<Rightarrow> string \<Rightarrow> (string \<times> string \<times> string \<times> string) option" where
  "match_value key s =
     (case s of
        [] \<Rightarrow> None
      | c # cs \<Rightarrow>
          (if c = CHR 0x22 then
             (case dropWhile is_not_quote cs of
                [] \<Rightarrow> match_unquoted key s
              | q # rest \<Rightarrow> Some (key, takeWhile is_not_quote cs, [], rest))
           else match_unquoted key s))"

definition match_at :: "string \<Rightarrow> (string \<times> string \<times> string \<times> string) option" where
  "match_at s =
     (let key = takeWhile is_word_char s in
      if key = [] then None
      else (case dropWhile is_word_char s of
              [] \<Rightarrow> None
            | c # cs \<Rightarrow> if c = CHR ''='' then match_value key cs else None))"

text \<open>The scan: leftmost match first, then on from where it ended; a position with no
  match is skipped. A match is never empty, so the scan ends.\<close>

lemma match_unquoted_shorter:
  "match_unquoted key s = Some (k, q, u, rest) \<Longrightarrow> length rest \<le> length s"
  by (auto simp: match_unquoted_def Let_def length_dropWhile_le split: if_splits)

lemma match_value_shorter:
  assumes m: "match_value key s = Some (k, q, u, rest)"
  shows "length rest \<le> length s"
proof (cases s)
  case Nil
  with m show ?thesis by (simp add: match_value_def)
next
  case (Cons c cs)
  show ?thesis
  proof (cases "c = CHR 0x22")
    case quote: True
    show ?thesis
    proof (cases "dropWhile is_not_quote cs")
      case Nil
      with m Cons quote have "match_unquoted key s = Some (k, q, u, rest)"
        by (simp add: match_value_def)
      then show ?thesis by (rule match_unquoted_shorter)
    next
      case (Cons x xs)
      with m \<open>s = c # cs\<close> quote have "rest = xs"
        by (simp add: match_value_def)
      moreover have "length (dropWhile is_not_quote cs) \<le> length cs"
        by (rule length_dropWhile_le)
      ultimately show ?thesis using Cons \<open>s = c # cs\<close> by simp
    qed
  next
    case False
    with m Cons have "match_unquoted key s = Some (k, q, u, rest)"
      by (simp add: match_value_def)
    then show ?thesis by (rule match_unquoted_shorter)
  qed
qed

lemma match_at_shorter:
  assumes m: "match_at s = Some (k, q, u, rest)"
  shows "length rest < length s"
proof -
  from m obtain c cs where d: "dropWhile is_word_char s = c # cs"
    and v: "match_value (takeWhile is_word_char s) cs = Some (k, q, u, rest)"
    by (auto simp: match_at_def Let_def split: if_splits list.splits)
  have "length rest \<le> length cs" using v by (rule match_value_shorter)
  moreover have "length (dropWhile is_word_char s) \<le> length s" by (rule length_dropWhile_le)
  ultimately show ?thesis using d by simp
qed

function findall :: "string \<Rightarrow> (string \<times> string \<times> string) list" where
  "findall [] = []"
| "findall (c # cs) =
     (case match_at (c # cs) of
        None \<Rightarrow> findall cs
      | Some (key, quoted_val, unquoted_val, rest) \<Rightarrow>
          (key, quoted_val, unquoted_val) # findall rest)"
  by pat_completeness auto
termination
  by (relation "measure length") (auto dest: match_at_shorter)

text \<open>\<^verbatim>\<open>_categorize_log\<close>\<close>

definition categories :: "(pyval \<times> pyval, string) dict" where
  "categories =
    [((PStr ''traffic'', PStr ''forward''), ''traffic_forward''),
     ((PStr ''traffic'', PStr ''local''), ''traffic_local''),
     ((PStr ''utm'', PStr ''virus''), ''security_av''),
     ((PStr ''utm'', PStr ''webfilter''), ''security_web''),
     ((PStr ''utm'', PStr ''ips''), ''security_ips''),
     ((PStr ''utm'', PStr ''app-ctrl''), ''security_app''),
     ((PStr ''event'', PStr ''system''), ''event_system''),
     ((PStr ''event'', PStr ''vpn''), ''event_vpn''),
     ((PStr ''event'', PStr ''user''), ''event_user'')]"

definition categorize_log :: "log \<Rightarrow> string" where
  "categorize_log l =
     (let log_type = dict_get_or l ''type'' (PStr []);
          subtype = dict_get_or l ''subtype'' (PStr [])
      in dict_get_or categories (log_type, subtype) (str log_type @ ''_'' @ str subtype))"

text \<open>The body of the loop over the matches: pick the value, coerce it when
  \<^verbatim>\<open>isdigit()\<close> holds, store it. \<^verbatim>\<open>int(value)\<close> can raise.\<close>

definition coerce :: "string \<Rightarrow> error + pyval" where
  "coerce v = (if isdigit v then (case int_of_str v of Inl e \<Rightarrow> Inl e | Inr n \<Rightarrow> Inr (PInt n))
               else Inr (PStr v))"

definition token_value :: "string \<Rightarrow> string \<Rightarrow> string" where
  "token_value quoted_val unquoted_val = (if quoted_val \<noteq> [] then quoted_val else unquoted_val)"

fun store_matches :: "(string \<times> string \<times> string) list \<Rightarrow> log \<Rightarrow> error + log" where
  "store_matches [] parsed = Inr parsed"
| "store_matches ((key, quoted_val, unquoted_val) # ms) parsed =
     (case coerce (token_value quoted_val unquoted_val) of
        Inl e \<Rightarrow> Inl e
      | Inr v \<Rightarrow> store_matches ms (dict_set parsed key v))"

text \<open>\<^verbatim>\<open>parse_fortigate_log\<close>; \<open>now\<close> is what
  \<^verbatim>\<open>datetime.utcnow().isoformat()\<close> returns at the call.\<close>

definition add_timestamp :: "log \<Rightarrow> log" where
  "add_timestamp parsed =
     (case (dict_get parsed ''date'', dict_get parsed ''time'') of
        (Some d, Some t) \<Rightarrow> dict_set parsed ''timestamp'' (PStr (str d @ ''T'' @ str t))
      | _ \<Rightarrow> parsed)"

definition parse_fortigate_log :: "string \<Rightarrow> string \<Rightarrow> error + log" where
  "parse_fortigate_log now raw =
     (case store_matches (findall raw) [(''raw'', PStr raw), (''received_at'', PStr now)] of
        Inl e \<Rightarrow> Inl e
      | Inr parsed \<Rightarrow>
          (let parsed' = add_timestamp parsed
           in Inr (dict_set parsed' ''log_category'' (PStr (categorize_log parsed')))))"

section \<open>The aggregator (\<^verbatim>\<open>LogAggregator\<close>)\<close>

record statistics =
  total_logs :: int
  by_action :: "(pyval, int) dict"
  by_srcip :: "(pyval, int) dict"
  by_dstip :: "(pyval, int) dict"
  by_type :: "(pyval, int) dict"
  blocked_count :: int
  allowed_count :: int
  blocked_sites :: "(pyval, int) dict"
  by_destination :: "(pyval, int) dict"
  blocked_categories :: "(pyval, int) dict"
  blocked_sites_detail :: "(pyval, (pyval, int) dict) dict"
  blocked_categories_detail :: "(pyval, (pyval, (pyval, int) dict) dict) dict"

text \<open>\<open>agg_logs\<close> is \<^verbatim>\<open>self._logs\<close>, \<open>agg_stats\<close> is \<^verbatim>\<open>self.stats\<close>.\<close>

record aggregator =
  max_logs :: int
  agg_logs :: "log list"
  agg_stats :: statistics

definition empty_stats :: statistics where
  "empty_stats = \<lparr>total_logs = 0, by_action = [], by_srcip = [], by_dstip = [], by_type = [],
     blocked_count = 0, allowed_count = 0, blocked_sites = [], by_destination = [],
     blocked_categories = [], blocked_sites_detail = [], blocked_categories_detail = []\<rparr>"

text \<open>\<^verbatim>\<open>LogAggregator.__init__\<close> and \<^verbatim>\<open>reset\<close>\<close>

definition init_aggregator :: "int \<Rightarrow> aggregator" where
  "init_aggregator n = \<lparr>max_logs = n, agg_logs = [], agg_stats = empty_stats\<rparr>"

definition reset :: "aggregator \<Rightarrow> aggregator" where
  "reset a = a\<lparr>agg_logs := [], agg_stats := empty_stats\<rparr>"

text \<open>\<^verbatim>\<open>_is_ip_address\<close>. The generator inside \<^verbatim>\<open>all(...)\<close> stops at the first
  part out of range; a \<^verbatim>\<open>ValueError\<close> of \<^verbatim>\<open>int(part)\<close> is caught. The call
  \<^verbatim>\<open>value.split('.')\<close> stands before the \<^verbatim>\<open>try\<close>: on a non-zero
  \<^verbatim>\<open>int\<close> it raises \<^verbatim>\<open>AttributeError\<close>, which nothing catches.\<close>

fun all_in_range :: "string list \<Rightarrow> error + bool" where
  "all_in_range [] = Inr True"
| "all_in_range (part # parts) =
     (case int_of_str part of
        Inl e \<Rightarrow> Inl e
      | Inr n \<Rightarrow> if 0 \<le> n \<and> n \<le> 255 then all_in_range parts else Inr False)"

fun is_ip_address :: "pyval \<Rightarrow> error + bool" where
  "is_ip_address (PInt i) = (if i = 0 then Inr False else Inl AttributeError)"
| "is_ip_address (PStr s) =
     (if s = [] then Inr False
      else (let parts = split_on CHR ''.'' s in
            if length parts \<noteq> 4 then Inr False
            else (case all_in_range parts of Inl e \<Rightarrow> Inr False | Inr b \<Rightarrow> Inr b)))"

text \<open>Lines 362 to 364 of \<^verbatim>\<open>add_log\<close>: append, then keep the last
  \<^verbatim>\<open>max_logs\<close> records.\<close>

definition append_log :: "log \<Rightarrow> aggregator \<Rightarrow> aggregator" where
  "append_log l a =
     (let ls = agg_logs a @ [l]
      in a\<lparr>agg_logs := (if int (length ls) > max_logs a then slice_from ls (- max_logs a) else ls)\<rparr>)"

text \<open>\<^verbatim>\<open>action_lower\<close>, and the two tuples it is tested against.\<close>

definition action_of :: "log \<Rightarrow> pyval" where
  "action_of l = dict_get_or l ''action'' (PStr ''unknown'')"

definition action_lower :: "log \<Rightarrow> string" where
  "action_lower l = (if truthy (action_of l) then lower (str (action_of l)) else [])"

definition block_actions :: "string list" where
  "block_actions = [''deny'', ''denied'', ''blocked'', ''drop'', ''block'']"

definition allow_actions :: "string list" where
  "allow_actions = [''accept'', ''accepted'', ''allow'', ''allowed'', ''pass'']"

text \<open>Lines 366 to 375: the total, the per-action counter, blocked or allowed.\<close>

definition count_action :: "log \<Rightarrow> statistics \<Rightarrow> statistics" where
  "count_action l s =
     (let s1 = s\<lparr>total_logs := total_logs s + 1\<rparr>;
          s2 = s1\<lparr>by_action := dict_incr (by_action s1) (action_of l)\<rparr>
      in if action_lower l \<in> set block_actions then s2\<lparr>blocked_count := blocked_count s2 + 1\<rparr>
         else if action_lower l \<in> set allow_actions then s2\<lparr>allowed_count := allowed_count s2 + 1\<rparr>
         else s2)"

text \<open>Lines 377 to 383: source and destination address counters.\<close>

definition count_endpoints :: "log \<Rightarrow> statistics \<Rightarrow> statistics" where
  "count_endpoints l s =
     (let s1 = (case dict_get l ''srcip'' of
                  None \<Rightarrow> s
                | Some srcip \<Rightarrow> if truthy srcip then s\<lparr>by_srcip := dict_incr (by_srcip s) srcip\<rparr> else s)
      in (case dict_get l ''dstip'' of
            None \<Rightarrow> s1
          | Some dstip \<Rightarrow> if truthy dstip then s1\<lparr>by_dstip := dict_incr (by_dstip s1) dstip\<rparr> else s1))"

text \<open>The test \<^verbatim>\<open>hostname and hostname != dstip and not self._is_ip_address(hostname)\<close>
  of lines 386 and 399, evaluated left to right.\<close>

definition hostname_names_site :: "pyval option \<Rightarrow> pyval option \<Rightarrow> error + bool" where
  "hostname_names_site hostname dstip =
     (case hostname of
        None \<Rightarrow> Inr False
      | Some h \<Rightarrow>
          if truthy h \<and> hostname \<noteq> dstip
          then (case is_ip_address h of Inl e \<Rightarrow> Inl e | Inr b \<Rightarrow> Inr (if b then False else True))
          else Inr False)"

text \<open>Lines 385 to 389: the destination of the record.\<close>

definition destination_of :: "log \<Rightarrow> error + pyval option" where
  "destination_of l =
     (let dstip = dict_get l ''dstip''; hostname = dict_get l ''hostname''
      in case hostname_names_site hostname dstip of
           Inl e \<Rightarrow> Inl e
         | Inr b \<Rightarrow> Inr (if b then hostname else dstip))"

text \<open>Lines 391 and 392.\<close>

definition count_destination :: "pyval option \<Rightarrow> statistics \<Rightarrow> statistics" where
  "count_destination destination s =
     (case destination of
        None \<Rightarrow> s
      | Some d \<Rightarrow> if truthy d then s\<lparr>by_destination := dict_incr (by_destination s) d\<rparr> else s)"

text \<open>Lines 398 to 402: the blocked site of a blocked UTM record.\<close>

definition blocked_site_of :: "log \<Rightarrow> error + pyval option" where
  "blocked_site_of l =
     (let dstip = dict_get l ''dstip''; hostname = dict_get l ''hostname'';
          blocked_site = py_or hostname dstip
      in if truthy_opt blocked_site
         then (case hostname_names_site hostname dstip of
                 Inl e \<Rightarrow> Inl e
               | Inr b \<Rightarrow> Inr (if b then hostname else blocked_site))
         else Inr dstip)"

text \<open>Lines 404 to 411.\<close>

definition count_blocked_site :: "pyval option \<Rightarrow> pyval option \<Rightarrow> statistics \<Rightarrow> statistics" where
  "count_blocked_site blocked_site srcip s =
     (case blocked_site of
        None \<Rightarrow> s
      | Some site \<Rightarrow>
          if truthy site then
            (let s1 = s\<lparr>blocked_sites := dict_incr (blocked_sites s) site\<rparr>;
                 s2 = (if dict_has (blocked_sites_detail s1) site then s1
                       else s1\<lparr>blocked_sites_detail := dict_set (blocked_sites_detail s1) site []\<rparr>)
             in (case srcip of
                   None \<Rightarrow> s2
                 | Some src \<Rightarrow>
                     if truthy src
                     then s2\<lparr>blocked_sites_detail :=
                            dict_set (blocked_sites_detail s2) site
                              (dict_incr (dict_get_or (blocked_sites_detail s2) site []) src)\<rparr>
                     else s2))
          else s)"

text \<open>Lines 413 to 425.\<close>

definition count_blocked_category ::
  "pyval \<Rightarrow> pyval option \<Rightarrow> pyval option \<Rightarrow> pyval option \<Rightarrow> statistics \<Rightarrow> statistics" where
  "count_blocked_category subtype catdesc blocked_site srcip s =
     (if subtype = PStr ''webfilter'' \<or> truthy_opt catdesc then
        (let category = (case catdesc of
                           None \<Rightarrow> PStr ''Other''
                         | Some c \<Rightarrow> if truthy c then c else PStr ''Other'');
             s1 = s\<lparr>blocked_categories := dict_incr (blocked_categories s) category\<rparr>;
             s2 = (if dict_has (blocked_categories_detail s1) category then s1
                   else s1\<lparr>blocked_categories_detail :=
                          dict_set (blocked_categories_detail s1) category []\<rparr>)
         in (case srcip of
               None \<Rightarrow> s2
             | Some src \<Rightarrow>
                 if truthy src then
                   (let by_src = dict_get_or (blocked_categories_detail s2) category [];
                        by_src1 = (if dict_has by_src src then by_src else dict_set by_src src [])
                    in (case blocked_site of
                          None \<Rightarrow> s2\<lparr>blocked_categories_detail :=
                                     dict_set (blocked_categories_detail s2) category by_src1\<rparr>
                        | Some site \<Rightarrow>
                            if truthy site
                            then s2\<lparr>blocked_categories_detail :=
                                   dict_set (blocked_categories_detail s2) category
                                     (dict_set by_src1 src (dict_incr (dict_get_or by_src1 src []) site))\<rparr>
                            else s2\<lparr>blocked_categories_detail :=
                                   dict_set (blocked_categories_detail s2) category by_src1\<rparr>))
                 else s2))
      else s)"

text \<open>Lines 394 to 425: blocked sites and categories, for a block action on a
  \<^verbatim>\<open>utm\<close> record only.\<close>

definition count_blocked :: "log \<Rightarrow> statistics \<Rightarrow> error + statistics" where
  "count_blocked l s =
     (let log_type = dict_get_or l ''type'' (PStr []);
          subtype = dict_get_or l ''subtype'' (PStr [])
      in if action_lower l \<in> set block_actions \<and> log_type = PStr ''utm''
         then (case blocked_site_of l of
                 Inl e \<Rightarrow> Inl e
               | Inr blocked_site \<Rightarrow>
                   Inr (count_blocked_category subtype (dict_get l ''catdesc'') blocked_site
                          (dict_get l ''srcip'')
                          (count_blocked_site blocked_site (dict_get l ''srcip'') s)))
         else Inr s)"

text \<open>Lines 427 and 428.\<close>

definition count_type :: "log \<Rightarrow> statistics \<Rightarrow> statistics" where
  "count_type l s = s\<lparr>by_type := dict_incr (by_type s) (dict_get_or l ''log_category'' (PStr ''unknown''))\<rparr>"

text \<open>\<^verbatim>\<open>add_log\<close>. An exception leaves the aggregator as the statements before it
  made it; the first component is the exception raised, if any.\<close>

definition add_log :: "log \<Rightarrow> aggregator \<Rightarrow> error option \<times> aggregator" where
  "add_log l a =
     (let a1 = append_log l a;
          s1 = count_endpoints l (count_action l (agg_stats a1))
      in case destination_of l of
           Inl e \<Rightarrow> (Some e, a1\<lparr>agg_stats := s1\<rparr>)
         | Inr destination \<Rightarrow>
             (let s2 = count_destination destination s1
              in case count_blocked l s2 of
                   Inl e \<Rightarrow> (Some e, a1\<lparr>agg_stats := s2\<rparr>)
                 | Inr s3 \<Rightarrow> (None, a1\<lparr>agg_stats := count_type l s3\<rparr>)))"

text \<open>A run of ingested records, with no reset in between. The caller
  (\<^verbatim>\<open>_notify\<close>) catches and logs an exception of a callback, so the next record
  meets the aggregator as the failed call left it.\<close>

fun ingest :: "log list \<Rightarrow> aggregator \<Rightarrow> aggregator" where
  "ingest [] a = a"
| "ingest (l # ls) a = ingest ls (snd (add_log l a))"

text \<open>\<^verbatim>\<open>get_stats\<close>. \<^verbatim>\<open>sorted(items, key=..., reverse=True)\<close> is a stable sort
  by descending key: equal keys stay in the order of the input, which for
  \<^verbatim>\<open>d.items()\<close> is the insertion order of the keys.\<close>

definition sorted_desc :: "('a \<Rightarrow> int) \<Rightarrow> 'a list \<Rightarrow> 'a list" where
  "sorted_desc key xs = sort_key (\<lambda>x. - key x) xs"

definition top10 :: "('a \<Rightarrow> int) \<Rightarrow> 'a list \<Rightarrow> 'a list" where
  "top10 key xs = take 10 (sorted_desc key xs)"

record site_detail =
  site :: pyval
  site_count :: int
  site_sources :: "(pyval \<times> int) list"

record category_detail =
  category :: pyval
  category_count :: int
  category_sources :: "(pyval \<times> pyval \<times> int) list"

record snapshot =
  snap_total_logs :: int
  snap_blocked_count :: int
  snap_allowed_count :: int
  snap_by_action :: "(pyval, int) dict"
  snap_by_type :: "(pyval, int) dict"
  top_sources :: "(pyval \<times> int) list"
  top_destinations :: "(pyval \<times> int) list"
  top_blocked :: "(pyval \<times> int) list"
  top_blocked_categories :: "(pyval \<times> int) list"
  top_blocked_detail :: "site_detail list"
  top_blocked_categories_detail :: "category_detail list"

definition site_detail_of :: "statistics \<Rightarrow> pyval \<times> int \<Rightarrow> site_detail" where
  "site_detail_of s e =
     \<lparr>site = fst e, site_count = snd e,
      site_sources = top10 snd (dict_get_or (blocked_sites_detail s) (fst e) [])\<rparr>"

definition flattened :: "(pyval, (pyval, int) dict) dict \<Rightarrow> (pyval \<times> pyval \<times> int) list" where
  "flattened cat_data =
     concat (map (\<lambda>(srcip, destinations). map (\<lambda>(dest, dest_count). (srcip, dest, dest_count)) destinations)
                 cat_data)"

definition category_detail_of :: "statistics \<Rightarrow> pyval \<times> int \<Rightarrow> category_detail" where
  "category_detail_of s e =
     \<lparr>category = fst e, category_count = snd e,
      category_sources =
        top10 (\<lambda>x. snd (snd x)) (flattened (dict_get_or (blocked_categories_detail s) (fst e) []))\<rparr>"

definition get_stats :: "aggregator \<Rightarrow> snapshot" where
  "get_stats a =
     (let s = agg_stats a;
          blocked = top10 snd (blocked_sites s);
          blocked_cats = top10 snd (blocked_categories s)
      in \<lparr>snap_total_logs = total_logs s,
          snap_blocked_count = blocked_count s,
          snap_allowed_count = allowed_count s,
          snap_by_action = by_action s,
          snap_by_type = by_type s,
          top_sources = top10 snd (by_srcip s),
          top_destinations = top10 snd (by_destination s),
          top_blocked = blocked,
          top_blocked_categories = blocked_cats,
          top_blocked_detail = map (site_detail_of s) blocked,
          top_blocked_categories_detail = map (category_detail_of s) blocked_cats\<rparr>)"

section \<open>The subscriber (\<^verbatim>\<open>frontend/src/hooks/useWebSocket.js\<close>)\<close>

text \<open>
  The hook's state, as far as its message handler and \<^verbatim>\<open>pauseUpdates\<close> touch it.
  Numbers are integers (no counter here comes near \<open>2\<^sup>5\<^sup>3\<close>). A chart key
  \<^verbatim>\<open>`${h}:${mm}`\<close> is the pair of hours and minutes it is printed from; the
  parameter \<open>tk\<close> of the handler gives the pair the browser's \<^verbatim>\<open>Date\<close> computes
  for a record. A field of a message that is missing (\<^verbatim>\<open>undefined\<close>) is \<open>None\<close>;
  an array, even an empty one, is truthy.
\<close>

record client_stats =
  c_total_logs :: int
  c_allowed_count :: int
  c_blocked_count :: int
  c_by_action :: "(pyval, int) dict"
  c_by_type :: "(pyval, int) dict"
  c_top_sources :: "(pyval \<times> int) list"
  c_top_destinations :: "(pyval \<times> int) list"

record traffic_point =
  time :: "nat \<times> nat"
  allowed :: int
  blocked :: int
  total :: "int option"

record client =
  logs :: "log list"
  stats :: client_stats
  trafficOverTime :: "traffic_point list"
  topBlocked :: "(pyval \<times> int) list"
  topBlockedCategories :: "(pyval \<times> int) list"
  topBlockedDetail :: "site_detail list"
  topBlockedCategoriesDetail :: "category_detail list"
  isPaused :: bool

record init_data =
  init_stats :: client_stats
  init_logs :: "log list option"
  init_top_blocked :: "(pyval \<times> int) list option"
  init_top_blocked_categories :: "(pyval \<times> int) list option"
  init_top_blocked_detail :: "site_detail list option"
  init_top_blocked_categories_detail :: "category_detail list option"

record stats_update =
  upd_top_sources :: "(pyval \<times> int) list option"
  upd_top_destinations :: "(pyval \<times> int) list option"
  upd_top_blocked :: "(pyval \<times> int) list option"
  upd_top_blocked_categories :: "(pyval \<times> int) list option"
  upd_top_blocked_detail :: "site_detail list option"
  upd_top_blocked_categories_detail :: "category_detail list option"

datatype msg = Init init_data | Log log | StatsUpdate stats_update | Other

datatype event = Message msg | PauseUpdates bool | ClearLogs

text \<open>\<^verbatim>\<open>x || d\<close> for an array or \<^verbatim>\<open>undefined\<close>\<close>

definition or_else :: "'a option \<Rightarrow> 'a \<Rightarrow> 'a" where
  "or_else x d = (case x of None \<Rightarrow> d | Some v \<Rightarrow> v)"

definition present :: "'a option \<Rightarrow> bool" where
  "present x = (case x of None \<Rightarrow> False | Some v \<Rightarrow> True)"

text \<open>\<^verbatim>\<open>[...].includes(log.action)\<close>: strict equality with one of the strings.\<close>

definition isBlocked :: "log \<Rightarrow> bool" where
  "isBlocked l = (case dict_get l ''action'' of
                    Some (PStr a) \<Rightarrow> a \<in> set [''deny'', ''block'', ''drop'', ''blocked'']
                  | _ \<Rightarrow> False)"

definition isAllowed :: "log \<Rightarrow> bool" where
  "isAllowed l = (case dict_get l ''action'' of
                    Some (PStr a) \<Rightarrow> a \<in> set [''accept'', ''allow'', ''pass'', ''passthrough'']
                  | _ \<Rightarrow> False)"

definition indicator :: "bool \<Rightarrow> int" where
  "indicator b = (if b then 1 else 0)"

text \<open>The chart of an \<^verbatim>\<open>init\<close> message: one point per key in first-seen order,
  sorted by minute of the day, the last twenty kept.\<close>

fun trafficMap :: "(log \<Rightarrow> nat \<times> nat) \<Rightarrow> log list \<Rightarrow> (nat \<times> nat, traffic_point) dict \<Rightarrow> (nat \<times> nat, traffic_point) dict" where
  "trafficMap tk [] m = m"
| "trafficMap tk (l # ls) m =
     (let timeKey = tk l;
          p = dict_get_or m timeKey \<lparr>time = timeKey, allowed = 0, blocked = 0, total = None\<rparr>
      in trafficMap tk ls
           (dict_set m timeKey
              (p\<lparr>allowed := allowed p + indicator (isAllowed l),
                 blocked := blocked p + indicator (isBlocked l)\<rparr>)))"

definition trafficData :: "(log \<Rightarrow> nat \<times> nat) \<Rightarrow> log list \<Rightarrow> traffic_point list" where
  "trafficData tk initialLogs =
     slice_from (sort_key (\<lambda>p. fst (time p) * 60 + snd (time p)) (map snd (trafficMap tk initialLogs [])))
       (- 20)"

definition on_init :: "(log \<Rightarrow> nat \<times> nat) \<Rightarrow> init_data \<Rightarrow> client \<Rightarrow> client" where
  "on_init tk d c =
     (let initialLogs = or_else (init_logs d) []
      in c\<lparr>stats := init_stats d,
           logs := initialLogs,
           topBlocked := or_else (init_top_blocked d) [],
           topBlockedCategories := or_else (init_top_blocked_categories d) [],
           topBlockedDetail := or_else (init_top_blocked_detail d) [],
           topBlockedCategoriesDetail := or_else (init_top_blocked_categories_detail d) [],
           trafficOverTime := trafficData tk initialLogs\<rparr>)"

text \<open>The body of the \<^verbatim>\<open>log\<close> branch (lines 109 to 141).\<close>

definition push_point :: "nat \<times> nat \<Rightarrow> log \<Rightarrow> traffic_point list \<Rightarrow> traffic_point list" where
  "push_point timeKey l prev =
     (if prev \<noteq> [] \<and> time (last prev) = timeKey
      then butlast prev @
             [(last prev)\<lparr>allowed := allowed (last prev) + indicator (isAllowed l),
                          blocked := blocked (last prev) + indicator (isBlocked l),
                          total := Some (or_else (total (last prev)) 0 + 1)\<rparr>]
      else slice_from
             (prev @ [\<lparr>time = timeKey, allowed = indicator (isAllowed l),
                       blocked = indicator (isBlocked l), total = Some 1\<rparr>])
             (- 20))"

definition on_log :: "(log \<Rightarrow> nat \<times> nat) \<Rightarrow> log \<Rightarrow> client \<Rightarrow> client" where
  "on_log tk l c =
     c\<lparr>logs := take 1000 (l # logs c),
       stats := (stats c)\<lparr>c_total_logs := c_total_logs (stats c) + 1,
                          c_allowed_count := c_allowed_count (stats c) + indicator (isAllowed l),
                          c_blocked_count := c_blocked_count (stats c) + indicator (isBlocked l)\<rparr>,
       trafficOverTime := push_point (tk l) l (trafficOverTime c)\<rparr>"

text \<open>The body of the \<^verbatim>\<open>stats_update\<close> branch (lines 145 to 155).\<close>

definition on_stats_update :: "stats_update \<Rightarrow> client \<Rightarrow> client" where
  "on_stats_update d c =
     (let c1 = (if present (upd_top_sources d) \<or> present (upd_top_destinations d)
                then c\<lparr>stats := (stats c)\<lparr>c_top_sources := or_else (upd_top_sources d) (c_top_sources (stats c)),
                                         c_top_destinations := or_else (upd_top_destinations d) (c_top_destinations (stats c))\<rparr>\<rparr>
                else c);
          c2 = (case upd_top_blocked d of None \<Rightarrow> c1 | Some v \<Rightarrow> c1\<lparr>topBlocked := v\<rparr>);
          c3 = (case upd_top_blocked_categories d of None \<Rightarrow> c2 | Some v \<Rightarrow> c2\<lparr>topBlockedCategories := v\<rparr>);
          c4 = (case upd_top_blocked_detail d of None \<Rightarrow> c3 | Some v \<Rightarrow> c3\<lparr>topBlockedDetail := v\<rparr>)
      in (case upd_top_blocked_categories_detail d of None \<Rightarrow> c4 | Some v \<Rightarrow> c4\<lparr>topBlockedCategoriesDetail := v\<rparr>))"

text \<open>\<^verbatim>\<open>ws.onmessage\<close>: only the \<^verbatim>\<open>log\<close> branch looks at \<^verbatim>\<open>isPausedRef\<close>.\<close>

fun onmessage :: "(log \<Rightarrow> nat \<times> nat) \<Rightarrow> msg \<Rightarrow> client \<Rightarrow> client" where
  "onmessage tk (Init d) c = on_init tk d c"
| "onmessage tk (Log l) c = (if isPaused c then c else on_log tk l c)"
| "onmessage tk (StatsUpdate d) c = on_stats_update d c"
| "onmessage tk Other c = c"

definition pauseUpdates :: "bool \<Rightarrow> client \<Rightarrow> client" where
  "pauseUpdates paused c = c\<lparr>isPaused := paused\<rparr>"

definition empty_client_stats :: client_stats where
  "empty_client_stats = \<lparr>c_total_logs = 0, c_allowed_count = 0, c_blocked_count = 0,
     c_by_action = [], c_by_type = [], c_top_sources = [], c_top_destinations = []\<rparr>"

definition clearLogs :: "client \<Rightarrow> client" where
  "clearLogs c = c\<lparr>logs := [], stats := empty_client_stats, trafficOverTime := [],
     topBlocked := [], topBlockedCategories := [], topBlockedDetail := [],
     topBlockedCategoriesDetail := []\<rparr>"

definition initial_client :: client where
  "initial_client = \<lparr>logs = [], stats = empty_client_stats, trafficOverTime = [],
     topBlocked = [], topBlockedCategories = [], topBlockedDetail = [],
     topBlockedCategoriesDetail = [], isPaused = False\<rparr>"

fun step :: "(log \<Rightarrow> nat \<times> nat) \<Rightarrow> event \<Rightarrow> client \<Rightarrow> client" where
  "step tk (Message m) c = onmessage tk m c"
| "step tk (PauseUpdates paused) c = pauseUpdates paused c"
| "step tk ClearLogs c = clearLogs c"

fun run :: "(log \<Rightarrow> nat \<times> nat) \<Rightarrow> event list \<Rightarrow> client \<Rightarrow> client" where
  "run tk [] c = c"
| "run tk (e # es) c = run tk es (step tk e c)"

section \<open>The classification the specification words\<close>





section \<open>Notions used to state the parser's properties\<close>

text \<open>The number a string of decimal digits denotes.\<close>

definition decimal_value :: "string \<Rightarrow> int" where
  "decimal_value v = foldl (\<lambda>acc c. acc * 10 + digit_val c) 0 v"

text \<open>The value text of the last token with key \<open>k\<close> among the matches: the one the
  loop leaves in the record.\<close>

fun last_value :: "string \<Rightarrow> (string \<times> string \<times> string) list \<Rightarrow> string option" where
  "last_value k [] = None"
| "last_value k ((key, quoted_val, unquoted_val) # ms) =
     (case last_value k ms of
        Some v \<Rightarrow> Some v
      | None \<Rightarrow> if key = k then Some (token_value quoted_val unquoted_val) else None)"

text \<open>Every value of the input that \<^verbatim>\<open>isdigit()\<close> accepts is one \<^verbatim>\<open>int()\<close>
  accepts too: decimal digits 0 to 9 only, and no more of them than the limit.\<close>

definition decimal_numbers :: "string \<Rightarrow> bool" where
  "decimal_numbers raw =
     list_all (\<lambda>(key, quoted_val, unquoted_val).
                 if isdigit (token_value quoted_val unquoted_val)
                 then list_all is_decimal (token_value quoted_val unquoted_val) \<and>
                      length (token_value quoted_val unquoted_val) \<le> max_str_digits
                 else True)
       (findall raw)"

section \<open>Notions used to state the snapshot's and the subscriber's properties\<close>

text \<open>\<open>ys\<close> ranks \<open>items\<close> by descending key, stably: it is sorted, and for every key
  value the entries with that value are the same as in \<open>items\<close>, in the same order. A
  Top-N list shows the first ten of such a ranking.\<close>

definition ranked :: "('a \<Rightarrow> int) \<Rightarrow> 'a list \<Rightarrow> 'a list \<Rightarrow> bool" where
  "ranked key items ys =
     (sorted_wrt (\<lambda>x y. key y \<le> key x) ys \<and>
      (\<forall>c. filter (\<lambda>x. key x = c) ys = filter (\<lambda>x. key x = c) items))"

definition top_n_of :: "('a \<Rightarrow> int) \<Rightarrow> 'a list \<Rightarrow> 'a list \<Rightarrow> bool" where
  "top_n_of key items shown = (length shown \<le> 10 \<and> (\<exists>ys. ranked key items ys \<and> shown = take 10 ys))"

text \<open>First-seen order, as the specification words the tie-break: \<open>first_seen ls (s, d)\<close>
  is the position of the first ingested record from source \<open>s\<close> to host \<open>d\<close>, and a list
  of (source, destination, count) triples obeys it when it has at most ten entries, is
  sorted by descending count, and lists entries of equal count in the order they were
  first seen.\<close>

definition first_seen :: "log list \<Rightarrow> pyval \<times> pyval \<Rightarrow> nat" where
  "first_seen ls sd =
     length (takeWhile (\<lambda>l. if dict_get l ''srcip'' = Some (fst sd) \<and> dict_get l ''hostname'' = Some (snd sd)
                             then False else True) ls)"

definition spec_top_first_seen :: "log list \<Rightarrow> (pyval \<times> pyval \<times> int) list \<Rightarrow> bool" where
  "spec_top_first_seen ls shown =
     (length shown \<le> 10 \<and>
      sorted_wrt (\<lambda>x y. snd (snd y) \<le> snd (snd x)) shown \<and>
      sorted_wrt (\<lambda>x y. snd (snd x) = snd (snd y) \<longrightarrow>
                   first_seen ls (fst x, fst (snd x)) \<le> first_seen ls (fst y, fst (snd y))) shown)"

text \<open>The pause as the specification words it: a paused subscriber is unchanged by a
  live record and by a statistics update alike.\<close>

definition spec_paused_receives_nothing :: "(log \<Rightarrow> nat \<times> nat) \<Rightarrow> msg \<Rightarrow> client \<Rightarrow> bool" where
  "spec_paused_receives_nothing tk m c =
     (case m of
        Log l \<Rightarrow> onmessage tk m (pauseUpdates True c) = pauseUpdates True c
      | StatsUpdate d \<Rightarrow> onmessage tk m (pauseUpdates True c) = pauseUpdates True c
      | _ \<Rightarrow> True)"

section \<open>Properties of the aggregator\<close>

subsection \<open>Dictionaries and the counters\<close>

lemma map_of_dict_set: "map_of (dict_set d k v) = (map_of d)(k \<mapsto> v)"
  by (induction d) (auto simp: fun_eq_iff)

lemma dict_get_or_incr_same: "dict_get_or (dict_incr d k) k x = dict_get_or d k 0 + 1"
  by (simp add: dict_incr_def dict_get_or_def map_of_dict_set)

lemma add_log_logs: "agg_logs (snd (add_log l a)) = agg_logs (append_log l a)"
  by (simp add: add_log_def Let_def split: sum.splits)

lemma add_log_max_logs: "max_logs (snd (add_log l a)) = max_logs a"
  by (simp add: add_log_def append_log_def Let_def split: sum.splits)

lemma append_log_keeps_last:
  assumes "1 \<le> max_logs a"
  shows "agg_logs (append_log l a) =
         drop (length (agg_logs a @ [l]) - nat (max_logs a)) (agg_logs a @ [l])"
proof (cases "int (length (agg_logs a @ [l])) > max_logs a")
  case True
  with assms have "nat (int (length (agg_logs a @ [l])) + - max_logs a)
      = length (agg_logs a @ [l]) - nat (max_logs a)"
    by simp
  with True assms show ?thesis
    by (simp add: append_log_def Let_def slice_from_def)
next
  case False
  then have "length (agg_logs a @ [l]) - nat (max_logs a) = 0" by simp
  with False show ?thesis
    by (simp add: append_log_def Let_def del: length_append)
qed

lemma drop_to_capacity:
  fixes C :: nat
  assumes "k = length xs - C"
  shows "drop (length (drop k xs @ ls) - C) (drop k xs @ ls) = drop (length (xs @ ls) - C) (xs @ ls)"
proof (cases "length xs \<le> C")
  case True
  with assms show ?thesis by simp
next
  case False
  then have k: "k \<le> length xs" and c: "length xs - k = C" using assms by simp_all
  have "drop (length (drop k xs @ ls) - C) (drop k xs @ ls) = drop (length ls) (drop k xs @ ls)"
    using c by simp
  also have "\<dots> = drop (length ls) (drop k (xs @ ls))"
    using k by simp
  also have "\<dots> = drop (length ls + k) (xs @ ls)"
    by (simp only: drop_drop)
  also have "length ls + k = length (xs @ ls) - C"
    using False assms by simp
  finally show ?thesis .
qed

lemma ingest_keeps_last:
  assumes "1 \<le> max_logs a" and "length (agg_logs a) \<le> nat (max_logs a)"
  shows "agg_logs (ingest ls a) =
         drop (length (agg_logs a @ ls) - nat (max_logs a)) (agg_logs a @ ls)"
  using assms
proof (induction ls arbitrary: a)
  case Nil
  then show ?case by simp
next
  case (Cons l ls)
  let ?a' = "snd (add_log l a)"
  let ?xs = "agg_logs a @ [l]"
  let ?k = "length ?xs - nat (max_logs a)"
  have m: "max_logs ?a' = max_logs a" by (rule add_log_max_logs)
  have b: "agg_logs ?a' = drop ?k ?xs"
    using Cons.prems(1) by (simp only: add_log_logs append_log_keeps_last)
  have len: "length (agg_logs ?a') \<le> nat (max_logs ?a')"
    unfolding b m by simp
  have "agg_logs (ingest (l # ls) a) = agg_logs (ingest ls ?a')" by simp
  also have "\<dots> = drop (length (agg_logs ?a' @ ls) - nat (max_logs a)) (agg_logs ?a' @ ls)"
    using Cons.IH [of ?a'] Cons.prems(1) m len by simp
  also have "\<dots> = drop (length (?xs @ ls) - nat (max_logs a)) (?xs @ ls)"
    unfolding b by (rule drop_to_capacity) simp
  finally show ?case by simp
qed

lemma count_action_total: "total_logs (count_action l s) = total_logs s + 1"
  by (simp add: count_action_def Let_def)

lemma count_action_blocked:
  "blocked_count (count_action l s) =
     blocked_count s + (if action_lower l \<in> set block_actions then 1 else 0)"
  by (simp add: count_action_def Let_def)



lemma count_action_by_action:
  "by_action (count_action l s) = dict_incr (by_action s) (action_of l)"
  by (simp add: count_action_def Let_def)

lemma count_endpoints_counters:
  "total_logs (count_endpoints l s) = total_logs s"
  "blocked_count (count_endpoints l s) = blocked_count s"
  "allowed_count (count_endpoints l s) = allowed_count s"
  "by_action (count_endpoints l s) = by_action s"
  "blocked_sites (count_endpoints l s) = blocked_sites s"
  "blocked_sites_detail (count_endpoints l s) = blocked_sites_detail s"
  "by_destination (count_endpoints l s) = by_destination s"
  by (simp_all add: count_endpoints_def Let_def split: option.splits)

lemma count_destination_counters:
  "total_logs (count_destination d s) = total_logs s"
  "blocked_count (count_destination d s) = blocked_count s"
  "allowed_count (count_destination d s) = allowed_count s"
  "by_action (count_destination d s) = by_action s"
  "blocked_sites (count_destination d s) = blocked_sites s"
  "blocked_sites_detail (count_destination d s) = blocked_sites_detail s"
  by (simp_all add: count_destination_def split: option.splits)

lemma count_blocked_site_counters:
  "total_logs (count_blocked_site b src s) = total_logs s"
  "blocked_count (count_blocked_site b src s) = blocked_count s"
  "allowed_count (count_blocked_site b src s) = allowed_count s"
  "by_action (count_blocked_site b src s) = by_action s"
  by (simp_all add: count_blocked_site_def Let_def split: option.splits)

lemma count_blocked_category_counters:
  "total_logs (count_blocked_category st cd b src s) = total_logs s"
  "blocked_count (count_blocked_category st cd b src s) = blocked_count s"
  "allowed_count (count_blocked_category st cd b src s) = allowed_count s"
  "by_action (count_blocked_category st cd b src s) = by_action s"
  "blocked_sites (count_blocked_category st cd b src s) = blocked_sites s"
  "blocked_sites_detail (count_blocked_category st cd b src s) = blocked_sites_detail s"
  by (simp_all add: count_blocked_category_def Let_def split: option.splits)

lemma count_blocked_counters:
  assumes "count_blocked l s = Inr s'"
  shows "total_logs s' = total_logs s" "blocked_count s' = blocked_count s"
    "allowed_count s' = allowed_count s" "by_action s' = by_action s"
  using assms
  by (auto simp: count_blocked_def Let_def count_blocked_site_counters
      count_blocked_category_counters split: if_splits sum.splits)

lemma count_type_counters:
  "total_logs (count_type l s) = total_logs s"
  "blocked_count (count_type l s) = blocked_count s"
  "allowed_count (count_type l s) = allowed_count s"
  "by_action (count_type l s) = by_action s"
  "blocked_sites (count_type l s) = blocked_sites s"
  "blocked_sites_detail (count_type l s) = blocked_sites_detail s"
  "by_destination (count_type l s) = by_destination s"
  by (simp_all add: count_type_def)

lemma add_log_stats_counters:
  "total_logs (agg_stats (snd (add_log l a))) = total_logs (count_action l (agg_stats a))"
  "blocked_count (agg_stats (snd (add_log l a))) = blocked_count (count_action l (agg_stats a))"
  "allowed_count (agg_stats (snd (add_log l a))) = allowed_count (count_action l (agg_stats a))"
  "by_action (agg_stats (snd (add_log l a))) = by_action (count_action l (agg_stats a))"
  by (auto simp: add_log_def Let_def append_log_def count_endpoints_counters
      count_destination_counters count_type_counters count_blocked_counters
      split: sum.splits)



subsection \<open>The ring buffer\<close>

text \<open>
  C3. For every capacity \<open>C \<ge> 1\<close> and every sequence of ingested records the buffer
  never holds more than \<open>C\<close> records, and once \<open>C + k\<close> records \<open>xs @ ys\<close> have been
  ingested (\<open>ys\<close> the last \<open>C\<close> of them) the buffer is exactly \<open>ys\<close>, in arrival order.
\<close>

theorem ring_buffer_keeps_last:
  assumes "1 \<le> C"
  shows "length (agg_logs (ingest ls (init_aggregator C))) \<le> nat C \<and>
         (length ys = nat C \<longrightarrow> agg_logs (ingest (xs @ ys) (init_aggregator C)) = ys)"
proof -
  have k: "agg_logs (ingest zs (init_aggregator C)) = drop (length zs - nat C) zs" for zs
    using ingest_keeps_last [of "init_aggregator C" zs] assms
    by (simp add: init_aggregator_def)
  have "length (agg_logs (ingest ls (init_aggregator C))) \<le> nat C"
    unfolding k by simp
  moreover have "agg_logs (ingest (xs @ ys) (init_aggregator C)) = ys" if "length ys = nat C"
    unfolding k using that by simp
  ultimately show ?thesis by blast
qed

theorem ring_buffer_keeps_last_witness:
  "(1::int) \<le> 2 \<and>
   length (agg_logs (ingest [[(''n'', PInt 1)], [(''n'', PInt 2)], [(''n'', PInt 3)]] (init_aggregator 2))) \<le> nat 2 \<and>
   length [[(''n'', PInt 2)], [(''n'', PInt 3)]] = nat 2 \<and>
   agg_logs (ingest ([[(''n'', PInt 1)]] @ [[(''n'', PInt 2)], [(''n'', PInt 3)]]) (init_aggregator 2))
     = [[(''n'', PInt 2)], [(''n'', PInt 3)]]"
  using ring_buffer_keeps_last [of 2 "[[(''n'', PInt 1)], [(''n'', PInt 2)], [(''n'', PInt 3)]]"
      "[[(''n'', PInt 2)], [(''n'', PInt 3)]]" "[[(''n'', PInt 1)]]"]
  by simp

subsection \<open>The counters\<close>







subsection \<open>Blocked sites\<close>

text \<open>
  C10. A record whose action is a block action and whose type is \<^verbatim>\<open>utm\<close>, but which
  carries neither \<^verbatim>\<open>hostname\<close> nor \<^verbatim>\<open>dstip\<close>, is ingested without an exception:
  \<^verbatim>\<open>total_logs\<close>, \<^verbatim>\<open>blocked_count\<close> and the counter of its action each grow
  by one, and \<^verbatim>\<open>blocked_sites\<close> and \<^verbatim>\<open>blocked_sites_detail\<close> stay as they were.
\<close>

theorem blocked_utm_without_site_frame:
  assumes "action_lower l \<in> set block_actions"
    and "dict_get l ''type'' = Some (PStr ''utm'')"
    and "dict_get l ''hostname'' = None"
    and "dict_get l ''dstip'' = None"
  shows "fst (add_log l a) = None \<and>
         total_logs (agg_stats (snd (add_log l a))) = total_logs (agg_stats a) + 1 \<and>
         blocked_count (agg_stats (snd (add_log l a))) = blocked_count (agg_stats a) + 1 \<and>
         dict_get_or (by_action (agg_stats (snd (add_log l a)))) (action_of l) 0 =
           dict_get_or (by_action (agg_stats a)) (action_of l) 0 + 1 \<and>
         blocked_sites (agg_stats (snd (add_log l a))) = blocked_sites (agg_stats a) \<and>
         blocked_sites_detail (agg_stats (snd (add_log l a))) = blocked_sites_detail (agg_stats a)"
proof -
  have d: "destination_of l = Inr None"
    using assms(3,4) by (simp add: destination_of_def hostname_names_site_def)
  have b: "blocked_site_of l = Inr None"
    using assms(3,4) by (simp add: blocked_site_of_def py_or_def)
  have cb: "count_blocked l s =
      Inr (count_blocked_category (dict_get_or l ''subtype'' (PStr [])) (dict_get l ''catdesc'') None
             (dict_get l ''srcip'') s)" for s
    using assms(1,2) b
    by (simp add: count_blocked_def Let_def dict_get_or_def dict_get_def count_blocked_site_def)
  have e: "add_log l a = (None, (append_log l a)\<lparr>agg_stats :=
      count_type l (count_blocked_category (dict_get_or l ''subtype'' (PStr [])) (dict_get l ''catdesc'') None
             (dict_get l ''srcip'')
             (count_destination None (count_endpoints l (count_action l (agg_stats (append_log l a))))))\<rparr>)"
    by (simp add: add_log_def Let_def d cb)
  have f: "blocked_sites (agg_stats (snd (add_log l a))) = blocked_sites (agg_stats a)"
    "blocked_sites_detail (agg_stats (snd (add_log l a))) = blocked_sites_detail (agg_stats a)"
    unfolding e
    by (simp_all add: count_type_counters count_blocked_category_counters
        count_destination_counters count_endpoints_counters count_action_def Let_def append_log_def)
  have "fst (add_log l a) = None" by (simp add: e)
  moreover have "total_logs (agg_stats (snd (add_log l a))) = total_logs (agg_stats a) + 1"
    by (simp add: add_log_stats_counters count_action_total)
  moreover have "blocked_count (agg_stats (snd (add_log l a))) = blocked_count (agg_stats a) + 1"
    using assms(1) by (simp add: add_log_stats_counters count_action_blocked)
  moreover have "dict_get_or (by_action (agg_stats (snd (add_log l a)))) (action_of l) 0 =
           dict_get_or (by_action (agg_stats a)) (action_of l) 0 + 1"
    by (simp add: add_log_stats_counters count_action_by_action dict_get_or_incr_same)
  ultimately show ?thesis using f by blast
qed

theorem blocked_utm_without_site_frame_witness:
  "action_lower [(''type'', PStr ''utm''), (''action'', PStr ''Deny'')] \<in> set block_actions \<and>
   dict_get [(''type'', PStr ''utm''), (''action'', PStr ''Deny'')] ''type'' = Some (PStr ''utm'') \<and>
   dict_get [(''type'', PStr ''utm''), (''action'', PStr ''Deny'')] ''hostname'' = None \<and>
   dict_get [(''type'', PStr ''utm''), (''action'', PStr ''Deny'')] ''dstip'' = None \<and>
   fst (add_log [(''type'', PStr ''utm''), (''action'', PStr ''Deny'')] (init_aggregator 1000)) = None \<and>
   total_logs (agg_stats (snd (add_log [(''type'', PStr ''utm''), (''action'', PStr ''Deny'')] (init_aggregator 1000)))) = 1 \<and>
   blocked_count (agg_stats (snd (add_log [(''type'', PStr ''utm''), (''action'', PStr ''Deny'')] (init_aggregator 1000)))) = 1 \<and>
   dict_get_or (by_action (agg_stats (snd (add_log [(''type'', PStr ''utm''), (''action'', PStr ''Deny'')] (init_aggregator 1000))))) (PStr ''Deny'') 0 = 1 \<and>
   blocked_sites (agg_stats (snd (add_log [(''type'', PStr ''utm''), (''action'', PStr ''Deny'')] (init_aggregator 1000)))) = [] \<and>
   blocked_sites_detail (agg_stats (snd (add_log [(''type'', PStr ''utm''), (''action'', PStr ''Deny'')] (init_aggregator 1000)))) = []"
proof -
  let ?l = "[(''type'', PStr ''utm''), (''action'', PStr ''Deny'')]"
  have h1: "action_lower ?l \<in> set block_actions"
    by code_simp
  have h2: "dict_get ?l ''type'' = Some (PStr ''utm'')" by (simp add: dict_get_def)
  have h3: "dict_get ?l ''hostname'' = None" by (simp add: dict_get_def)
  have h4: "dict_get ?l ''dstip'' = None" by (simp add: dict_get_def)
  have a: "action_of ?l = PStr ''Deny''" by (simp add: action_of_def dict_get_or_def)
  show ?thesis
    using blocked_utm_without_site_frame [OF h1 h2 h3 h4, of "init_aggregator 1000"] h1 h2 h3 h4
    by (simp add: a init_aggregator_def empty_stats_def dict_get_or_def)
qed

subsection \<open>The destination counter\<close>

text \<open>
  For a record whose \<^verbatim>\<open>hostname\<close> is absent or a string, \<^verbatim>\<open>add_log\<close>
  returns, and the key counted in \<^verbatim>\<open>by_destination\<close> is the hostname when that is
  a non-empty string, differs from \<^verbatim>\<open>dstip\<close> and is not an address for
  \<^verbatim>\<open>_is_ip_address\<close>; otherwise it is \<^verbatim>\<open>dstip\<close>; and nothing is counted
  when the key so chosen is absent or empty. An integer hostname is another matter: see the
  worked inputs below.
\<close>

lemma is_ip_address_str: "\<exists>b. is_ip_address (PStr h) = Inr b"
  by (auto simp: Let_def split: sum.splits)

lemma by_destination_frame:
  "by_destination (count_blocked_site b src s) = by_destination s"
  "by_destination (count_blocked_category st cd b src s) = by_destination s"
  by (simp_all add: count_blocked_site_def count_blocked_category_def Let_def split: option.splits)

lemma count_blocked_by_destination:
  "count_blocked l s = Inr s' \<Longrightarrow> by_destination s' = by_destination s"
  by (auto simp: count_blocked_def Let_def by_destination_frame split: if_splits sum.splits)

lemma destination_counter_text_hostname:
  assumes "dict_get l ''hostname'' = None \<or> (\<exists>h. dict_get l ''hostname'' = Some (PStr h))"
  shows "fst (add_log l a) = None \<and>
         by_destination (agg_stats (snd (add_log l a))) =
           (case (if (\<exists>h. dict_get l ''hostname'' = Some (PStr h) \<and> h \<noteq> [] \<and>
                          dict_get l ''hostname'' \<noteq> dict_get l ''dstip'' \<and>
                          is_ip_address (PStr h) = Inr False)
                  then dict_get l ''hostname'' else dict_get l ''dstip'') of
              None \<Rightarrow> by_destination (agg_stats a)
            | Some d \<Rightarrow> if truthy d then dict_incr (by_destination (agg_stats a)) d
                        else by_destination (agg_stats a))"
proof -
  let ?host = "dict_get l ''hostname''" and ?dst = "dict_get l ''dstip''"
  let ?usable = "\<exists>h. ?host = Some (PStr h) \<and> h \<noteq> [] \<and> ?host \<noteq> ?dst \<and> is_ip_address (PStr h) = Inr False"
  have h: "hostname_names_site ?host ?dst = Inr ?usable"
  proof (cases ?host)
    case None
    then show ?thesis by (simp add: hostname_names_site_def)
  next
    case (Some v)
    with assms obtain h where v: "v = PStr h" by auto
    obtain b where b: "is_ip_address (PStr h) = Inr b" using is_ip_address_str by blast
    show ?thesis using Some v b
      by (auto simp: hostname_names_site_def simp del: is_ip_address.simps)
  qed
  then have d: "destination_of l = Inr (if ?usable then ?host else ?dst)"
    by (simp add: destination_of_def Let_def)
  have "\<exists>x. blocked_site_of l = Inr x"
    using h by (simp add: blocked_site_of_def Let_def)
  then have "\<exists>s'. count_blocked l s = Inr s'" for s
    by (auto simp: count_blocked_def Let_def)
  then obtain s' where s': "count_blocked l (count_destination (if ?usable then ?host else ?dst)
      (count_endpoints l (count_action l (agg_stats (append_log l a))))) = Inr s'"
    by blast
  have e: "add_log l a = (None, (append_log l a)\<lparr>agg_stats := count_type l s'\<rparr>)"
    using d s' by (simp add: add_log_def Let_def)
  have "by_destination (count_type l s') =
      by_destination (count_destination (if ?usable then ?host else ?dst) (agg_stats a))"
    using count_blocked_by_destination [OF s']
    by (simp add: count_type_counters count_destination_def count_endpoints_counters
        count_action_def Let_def append_log_def split: option.splits)
  then show ?thesis
    unfolding e by (simp add: count_destination_def split: option.splits)
qed

section \<open>Properties of the parser\<close>

subsection \<open>\<^verbatim>\<open>int()\<close> on what \<^verbatim>\<open>isdigit()\<close> accepts\<close>

lemma more_digits_decimal:
  "list_all is_decimal cs \<Longrightarrow> more_digits acc cs = Some (foldl (\<lambda>a c. a * 10 + digit_val c) acc cs)"
  by (induction acc cs rule: more_digits.induct) auto

lemma decimal_not_space: "is_decimal c \<Longrightarrow> \<not> is_int_space c"
  by (auto simp: is_decimal_def is_int_space_def Let_def)

lemma digit_char_not_space: "is_digit_char c \<Longrightarrow> \<not> is_int_space c"
  by (auto simp: is_digit_char_def is_decimal_def is_int_space_def Let_def)

lemma digit_char_not_sign: "is_digit_char c \<Longrightarrow> c \<noteq> CHR ''+'' \<and> c \<noteq> CHR ''-'' \<and> c \<noteq> CHR ''_''"
  by (auto simp: is_digit_char_def is_decimal_def code_def)

lemma int_strip_id:
  assumes "s \<noteq> []" and "\<not> is_int_space (hd s)" and "\<not> is_int_space (last s)"
  shows "int_strip s = s"
proof -
  from assms(1,2) have a: "dropWhile is_int_space s = s"
    by (cases s) simp_all
  from assms(1,3) have "dropWhile is_int_space (rev s) = rev s"
    by (cases "rev s") (simp_all add: last_rev [symmetric] hd_rev)
  with a show ?thesis by (simp add: int_strip_def)
qed

lemma isdigit_strip:
  assumes "isdigit v"
  shows "int_strip v = v"
proof -
  from assms have n: "v \<noteq> []" and a: "list_all is_digit_char v"
    by (simp_all add: isdigit_def)
  from n a have "is_digit_char (hd v)" "is_digit_char (last v)"
    by (simp_all add: list_all_iff)
  then show ?thesis using n by (intro int_strip_id) (simp_all add: digit_char_not_space)
qed

lemma int_of_str_decimal:
  assumes "v \<noteq> []" and "list_all is_decimal v"
  shows "int_of_str v =
         (if length v > max_str_digits then Inl ValueError else Inr (decimal_value v))"
proof -
  from assms have d: "isdigit v"
    by (simp add: isdigit_def is_digit_char_def list_all_iff)
  from assms obtain c cs where v: "v = c # cs" by (cases v) auto
  with assms(2) have c: "is_decimal c" and cs: "list_all is_decimal cs" by simp_all
  from c have s: "c \<noteq> CHR ''+''" "c \<noteq> CHR ''-''"
    using digit_char_not_sign [of c] by (simp_all add: is_digit_char_def)
  have u: "unsigned_literal v = Some (decimal_value v)"
    using c cs by (simp add: v more_digits_decimal decimal_value_def)
  have f: "filter is_decimal v = v"
    using assms(2) by (simp add: list_all_iff)
  have "literal v = (if length v > max_str_digits then Inl ValueError else Inr (decimal_value v))"
    by (simp add: literal_def u f)
  then show ?thesis
    using isdigit_strip [OF d] s by (simp add: int_of_str_def v)
qed

lemma more_digits_chars:
  "more_digits acc cs = Some n \<Longrightarrow> list_all (\<lambda>c. is_decimal c \<or> c = CHR ''_'') cs"
  by (induction acc cs rule: more_digits.induct) (auto split: if_splits)

lemma isdigit_int_decimal:
  assumes "isdigit v" and "int_of_str v = Inr n"
  shows "list_all is_decimal v"
proof -
  from assms(1) obtain c cs where v: "v = c # cs" by (cases v) (auto simp: isdigit_def)
  from assms(1) have a: "list_all is_digit_char v" by (simp add: isdigit_def)
  then have s: "c \<noteq> CHR ''+''" "c \<noteq> CHR ''-''"
    using digit_char_not_sign [of c] by (simp_all add: v)
  from assms(2) have "literal v = Inr n"
    using isdigit_strip [OF assms(1)] s by (simp add: int_of_str_def v)
  then have "unsigned_literal v = Some n"
    by (auto simp: literal_def simp del: unsigned_literal.simps split: option.splits if_splits)
  then have c: "is_decimal c" and m: "more_digits (digit_val c) cs = Some n"
    by (auto simp: v split: if_splits)
  from more_digits_chars [OF m] a have "list_all is_decimal cs"
    using digit_char_not_sign by (auto simp: v list_all_iff)
  with c show ?thesis by (simp add: v)
qed

lemma coerce_value:
  assumes "coerce v = Inr x"
  shows "x = (if v \<noteq> [] \<and> list_all is_decimal v then PInt (decimal_value v) else PStr v)"
proof (cases "isdigit v")
  case True
  with assms obtain n where n: "int_of_str v = Inr n" and x: "x = PInt n"
    by (auto simp: coerce_def split: sum.splits)
  from isdigit_int_decimal [OF True n] have d: "list_all is_decimal v" .
  from True have e: "v \<noteq> []" by (simp add: isdigit_def)
  from n int_of_str_decimal [OF e d] have "n = decimal_value v"
    by (simp split: if_splits)
  with d e x show ?thesis by simp
next
  case False
  then have "\<not> (v \<noteq> [] \<and> list_all is_decimal v)"
    by (auto simp: isdigit_def is_digit_char_def list_all_iff)
  with False assms show ?thesis by (auto simp: coerce_def)
qed

lemma coerce_returns:
  "(if isdigit v then list_all is_decimal v \<and> length v \<le> max_str_digits else True) \<Longrightarrow>
   \<exists>x. coerce v = Inr x"
  by (auto simp: coerce_def int_of_str_decimal isdigit_def split: if_splits)

lemma coerce_too_long:
  "isdigit v \<Longrightarrow> list_all is_decimal v \<Longrightarrow> max_str_digits < length v \<Longrightarrow> coerce v = Inl ValueError"
  by (simp add: coerce_def int_of_str_decimal isdigit_def)

lemma dict_get_dict_set: "dict_get (dict_set d k v) k' = (if k' = k then Some v else dict_get d k')"
  by (simp add: dict_get_def map_of_dict_set)

lemma store_matches_value:
  assumes "store_matches ms parsed = Inr r"
  shows "dict_get r k =
     (case last_value k ms of
        None \<Rightarrow> dict_get parsed k
      | Some v \<Rightarrow> Some (if v \<noteq> [] \<and> list_all is_decimal v then PInt (decimal_value v) else PStr v))"
  using assms
proof (induction ms arbitrary: parsed)
  case Nil
  then show ?case by simp
next
  case (Cons m ms)
  obtain key q u where m: "m = (key, q, u)" by (cases m) auto
  from Cons.prems obtain x where x: "coerce (token_value q u) = Inr x"
    and r: "store_matches ms (dict_set parsed key x) = Inr r"
    by (auto simp: m split: sum.splits)
  note ih = Cons.IH [OF r]
  show ?case
  proof (cases "last_value k ms")
    case None
    with ih coerce_value [OF x] show ?thesis
      by (simp add: m dict_get_dict_set)
  next
    case (Some v)
    with ih show ?thesis by (simp add: m)
  qed
qed

lemma store_matches_returns:
  assumes "list_all (\<lambda>(key, quoted_val, unquoted_val).
                 if isdigit (token_value quoted_val unquoted_val)
                 then list_all is_decimal (token_value quoted_val unquoted_val) \<and>
                      length (token_value quoted_val unquoted_val) \<le> max_str_digits
                 else True) ms"
  shows "\<exists>r. store_matches ms parsed = Inr r"
  using assms
proof (induction ms arbitrary: parsed)
  case Nil
  then show ?case by simp
next
  case (Cons m ms)
  obtain key q u where m: "m = (key, q, u)" by (cases m) auto
  from Cons.prems have "if isdigit (token_value q u)
      then list_all is_decimal (token_value q u) \<and> length (token_value q u) \<le> max_str_digits else True"
    by (simp add: m)
  then obtain x where x: "coerce (token_value q u) = Inr x"
    using coerce_returns by blast
  from Cons.prems have "\<exists>r. store_matches ms (dict_set parsed key x) = Inr r"
    by (intro Cons.IH) (simp add: m)
  with x show ?case by (simp add: m)
qed

lemma add_timestamp_other: "k \<noteq> ''timestamp'' \<Longrightarrow> dict_get (add_timestamp parsed) k = dict_get parsed k"
  by (auto simp: add_timestamp_def dict_get_dict_set split: option.splits)

subsection \<open>Coercion of values\<close>

text \<open>
  C7, as amended. When the parser returns a record, the value it holds for a key (other
  than \<^verbatim>\<open>timestamp\<close> and \<^verbatim>\<open>log_category\<close>, which the parser sets itself
  afterwards) comes from the last token with that key: it is an integer exactly when the
  token's text consists solely of decimal digits, and then it is the number they denote, so
  a leading zero is lost (\<^verbatim>\<open>007\<close> becomes \<open>7\<close>); every other text, a signed one
  such as \<^verbatim>\<open>-5\<close> included, stays the string it was.
\<close>

theorem token_value_coercion:
  assumes "parse_fortigate_log now raw = Inr r"
    and "last_value k (findall raw) = Some v"
    and "k \<noteq> ''timestamp''" and "k \<noteq> ''log_category''"
  shows "dict_get r k = Some (if v \<noteq> [] \<and> list_all is_decimal v then PInt (decimal_value v) else PStr v)"
proof -
  from assms(1) obtain parsed where
    p: "store_matches (findall raw) [(''raw'', PStr raw), (''received_at'', PStr now)] = Inr parsed"
    and r: "r = dict_set (add_timestamp parsed) ''log_category'' (PStr (categorize_log (add_timestamp parsed)))"
    by (auto simp: parse_fortigate_log_def Let_def split: sum.splits)
  have "dict_get r k = dict_get parsed k"
    using assms(3,4) by (simp add: r dict_get_dict_set add_timestamp_other)
  with store_matches_value [OF p, of k] assms(2) show ?thesis by simp
qed

theorem token_value_coercion_witness:
  "parse_fortigate_log ''T'' ''port=007 n=-5'' =
     Inr [(''raw'', PStr ''port=007 n=-5''), (''received_at'', PStr ''T''), (''port'', PInt 7),
          (''n'', PStr ''-5''), (''log_category'', PStr ''_'')] \<and>
   last_value ''port'' (findall ''port=007 n=-5'') = Some ''007'' \<and>
   ''port'' \<noteq> ''timestamp'' \<and> ''port'' \<noteq> ''log_category'' \<and>
   dict_get [(''raw'', PStr ''port=007 n=-5''), (''received_at'', PStr ''T''), (''port'', PInt 7),
          (''n'', PStr ''-5''), (''log_category'', PStr ''_'')] ''port'' = Some (PInt (decimal_value ''007''))"
proof -
  have h1: "parse_fortigate_log ''T'' ''port=007 n=-5'' =
     Inr [(''raw'', PStr ''port=007 n=-5''), (''received_at'', PStr ''T''), (''port'', PInt 7),
          (''n'', PStr ''-5''), (''log_category'', PStr ''_'')]"
    by code_simp
  have h2: "last_value ''port'' (findall ''port=007 n=-5'') = Some ''007''"
    by code_simp
  have d: "''007'' \<noteq> [] \<and> list_all is_decimal ''007''" by code_simp
  show ?thesis
    using token_value_coercion [OF h1 h2] h1 h2 d by simp
qed

text \<open>
  C7 as the specification states it has leading-zero numeric strings stay strings; the
  parser turns \<^verbatim>\<open>port=007\<close> into the integer \<open>7\<close>.
\<close>

theorem leading_zero_counterexample:
  "(case parse_fortigate_log ''T'' ''port=007'' of
      Inl e \<Rightarrow> False
    | Inr r \<Rightarrow> dict_get r ''port'' = Some (PInt 7) \<and> dict_get r ''port'' \<noteq> Some (PStr ''007''))"
  by code_simp

subsection \<open>Totality and the minimal record\<close>

text \<open>
  C8, as amended. The parser returns a record for every input in which each all-digit
  value is made of the decimal digits 0 to 9, at most 4300 of them; and for an input with
  no token the record
  has exactly three fields: \<^verbatim>\<open>raw\<close>, \<^verbatim>\<open>received_at\<close> and
  \<^verbatim>\<open>log_category\<close>, the last one being \<^verbatim>\<open>_\<close>.
\<close>

theorem parse_returns_record:
  "(decimal_numbers raw \<longrightarrow> (\<exists>r. parse_fortigate_log now raw = Inr r)) \<and>
   (findall raw = [] \<longrightarrow>
      parse_fortigate_log now raw =
        Inr [(''raw'', PStr raw), (''received_at'', PStr now), (''log_category'', PStr ''_'')])"
proof -
  have "\<exists>r. parse_fortigate_log now raw = Inr r" if "decimal_numbers raw"
  proof -
    from that obtain parsed where
      "store_matches (findall raw) [(''raw'', PStr raw), (''received_at'', PStr now)] = Inr parsed"
      using store_matches_returns unfolding decimal_numbers_def by blast
    then show ?thesis by (simp add: parse_fortigate_log_def Let_def)
  qed
  moreover have "parse_fortigate_log now raw =
        Inr [(''raw'', PStr raw), (''received_at'', PStr now), (''log_category'', PStr ''_'')]"
    if "findall raw = []"
    using that
    by (simp add: parse_fortigate_log_def Let_def add_timestamp_def dict_get_def
        categorize_log_def dict_get_or_def categories_def)
  ultimately show ?thesis by blast
qed

theorem parse_returns_record_witness:
  "decimal_numbers ''a=1 b=x'' \<and> (\<exists>r. parse_fortigate_log ''T'' ''a=1 b=x'' = Inr r) \<and>
   findall ''no tokens here'' = [] \<and>
   parse_fortigate_log ''T'' ''no tokens here'' =
     Inr [(''raw'', PStr ''no tokens here''), (''received_at'', PStr ''T''), (''log_category'', PStr ''_'')]"
proof -
  have h1: "decimal_numbers ''a=1 b=x''" by code_simp
  have h2: "findall ''no tokens here'' = []" by code_simp
  show ?thesis
    using parse_returns_record [of "''a=1 b=x''" "''T''"]
      parse_returns_record [of "''no tokens here''" "''T''"] h1 h2
    by blast
qed

text \<open>
  C8 as the specification states it has only \<^verbatim>\<open>raw\<close> and \<^verbatim>\<open>received_at\<close>
  populated when there is no token; the record of the empty input has
  \<^verbatim>\<open>log_category\<close> too.
\<close>

theorem only_two_fields_counterexample:
  "findall [] = [] \<and>
   (case parse_fortigate_log ''T'' [] of
      Inl e \<Rightarrow> False
    | Inr r \<Rightarrow> map fst r = [''raw'', ''received_at'', ''log_category''] \<and>
              dict_get r ''log_category'' = Some (PStr ''_''))"
  by code_simp

text \<open>A value of superscript digits passes \<^verbatim>\<open>isdigit()\<close> and makes
  \<^verbatim>\<open>int()\<close> raise, and so does one of more than 4300 decimal digits
  (\<open>coerce_too_long\<close>): on such an input the parser does not return.\<close>

lemma superscript_digit_raises:
  "isdigit [CHR 0xB2] \<and> parse_fortigate_log now [CHR ''n'', CHR ''='', CHR 0xB2] = Inl ValueError"
  by code_simp

section \<open>Worked inputs\<close>

text \<open>
  C1. Parsing the line and ingesting the record into a fresh aggregator: the category is
  \<^verbatim>\<open>security_web\<close>, \<^verbatim>\<open>blocked_count\<close> becomes 1, \<^verbatim>\<open>example.com\<close>
  is the one blocked site, with detail \<open>{10.0.0.5: 1}\<close>, and \<^verbatim>\<open>Gambling\<close> the one
  blocked category, with detail \<open>{10.0.0.5: {example.com: 1}}\<close>.
\<close>

theorem webfilter_block_example:
  "(case parse_fortigate_log now
      ''type=utm subtype=webfilter action=blocked srcip=10.0.0.5 hostname=example.com catdesc=Gambling'' of
      Inl e \<Rightarrow> False
    | Inr r \<Rightarrow>
        dict_get r ''log_category'' = Some (PStr ''security_web'') \<and>
        fst (add_log r (init_aggregator 1000)) = None \<and>
        blocked_count (agg_stats (snd (add_log r (init_aggregator 1000)))) = 1 \<and>
        blocked_sites (agg_stats (snd (add_log r (init_aggregator 1000)))) = [(PStr ''example.com'', 1)] \<and>
        blocked_sites_detail (agg_stats (snd (add_log r (init_aggregator 1000))))
          = [(PStr ''example.com'', [(PStr ''10.0.0.5'', 1)])] \<and>
        blocked_categories (agg_stats (snd (add_log r (init_aggregator 1000)))) = [(PStr ''Gambling'', 1)] \<and>
        blocked_categories_detail (agg_stats (snd (add_log r (init_aggregator 1000))))
          = [(PStr ''Gambling'', [(PStr ''10.0.0.5'', [(PStr ''example.com'', 1)])])])"
  by code_simp

text \<open>
  C6 at a record whose \<^verbatim>\<open>hostname\<close> is all digits. The parser makes the value an
  integer; \<^verbatim>\<open>_is_ip_address\<close> calls \<^verbatim>\<open>split\<close> on it outside its
  \<^verbatim>\<open>try\<close>, and \<^verbatim>\<open>add_log\<close> ends with \<^verbatim>\<open>AttributeError\<close> after the
  total was counted and before any destination or category was.
\<close>

theorem integer_hostname_raises:
  "(case parse_fortigate_log now ''hostname=12345 dstip=10.0.0.1'' of
      Inl e \<Rightarrow> False
    | Inr r \<Rightarrow>
        dict_get r ''hostname'' = Some (PInt 12345) \<and>
        fst (add_log r (init_aggregator 1000)) = Some AttributeError \<and>
        by_destination (agg_stats (snd (add_log r (init_aggregator 1000)))) = [] \<and>
        by_type (agg_stats (snd (add_log r (init_aggregator 1000)))) = [] \<and>
        total_logs (agg_stats (snd (add_log r (init_aggregator 1000)))) = 1)"
  by code_simp

section \<open>Properties of the snapshot\<close>

lemma ranked_sorted_desc: "ranked key items (sorted_desc key items)"
proof -
  have "sorted (map (\<lambda>x. - key x) (sort_key (\<lambda>x. - key x) items))"
    by (rule sorted_sort_key)
  then have s: "sorted_wrt (\<lambda>x y. key y \<le> key x) (sorted_desc key items)"
    by (simp add: sorted_map sorted_desc_def)
  have "filter (\<lambda>x. key x = c) (sorted_desc key items) = filter (\<lambda>x. key x = c) items" for c
    using sort_key_stable [of "\<lambda>x. - key x" "- c" items] by (simp add: sorted_desc_def)
  with s show ?thesis by (simp add: ranked_def)
qed

lemma top_n_of_top10: "top_n_of key items (top10 key items)"
  using ranked_sorted_desc [of key items] by (auto simp: top_n_of_def top10_def)

lemma length_top10: "length (top10 key items) \<le> 10"
  by (simp add: top10_def)

text \<open>A list has one stable ranking only, so the conditions of \<open>top_n_of\<close> single out
  one list.\<close>

lemma ranked_mset:
  assumes "ranked key items ys"
  shows "mset ys = mset items"
proof (rule multiset_eqI)
  fix x
  from assms have f: "filter (\<lambda>z. key z = key x) ys = filter (\<lambda>z. key z = key x) items"
    by (simp add: ranked_def)
  have "filter ((=) x) ys = filter ((=) x) (filter (\<lambda>z. key z = key x) ys)"
    by (auto simp: filter_filter intro: filter_cong)
  also have "\<dots> = filter ((=) x) (filter (\<lambda>z. key z = key x) items)"
    by (simp only: f)
  also have "\<dots> = filter ((=) x) items"
    by (auto simp: filter_filter intro: filter_cong)
  finally have "length (filter ((=) x) ys) = length (filter ((=) x) items)" by simp
  then show "count (mset ys) x = count (mset items) x"
    by (simp add: count_mset count_list_eq_length_filter)
qed

lemma ranked_unique:
  assumes "ranked key items ys"
  shows "ys = sorted_desc key items"
proof -
  have "sort_key (\<lambda>x. - key x) items = ys"
  proof (rule properties_for_sort_key)
    show "mset ys = mset items" using assms by (rule ranked_mset)
    show "sorted (map (\<lambda>x. - key x) ys)"
      using assms by (simp add: ranked_def sorted_map)
    fix k
    from assms have "filter (\<lambda>z. key z = key k) ys = filter (\<lambda>z. key z = key k) items"
      by (simp add: ranked_def)
    then show "filter (\<lambda>x. - key k = - key x) ys = filter (\<lambda>x. - key k = - key x) items"
      by (simp add: eq_commute)
  qed
  then show ?thesis by (simp add: sorted_desc_def)
qed

lemma top_n_of_unique: "top_n_of key items shown \<Longrightarrow> shown = top10 key items"
  by (auto simp: top_n_of_def top10_def dest: ranked_unique)

text \<open>
  C5, as amended. In every state of the statistics, each Top-N list of the snapshot has
  at most ten entries and is the head of the stable ranking by descending count of the
  list it is drawn from. For the top sources, destinations, blocked sites and blocked
  categories, and for the sources of each listed blocked site, that list is the
  dictionary's items, in the insertion order of its keys. For each listed blocked category
  it is the (source, destination, count) triples of the category's nested dictionary, taken
  source by source in the insertion order of the sources and, under a source, destination
  by destination in the insertion order of its destinations: ties among them follow that
  order, not the order in which the pairs were first seen.
\<close>

theorem top_lists:
  "top_n_of snd (by_srcip (agg_stats a)) (top_sources (get_stats a)) \<and>
   top_n_of snd (by_destination (agg_stats a)) (top_destinations (get_stats a)) \<and>
   top_n_of snd (blocked_sites (agg_stats a)) (top_blocked (get_stats a)) \<and>
   top_n_of snd (blocked_categories (agg_stats a)) (top_blocked_categories (get_stats a)) \<and>
   length (top_blocked_detail (get_stats a)) \<le> 10 \<and>
   map (\<lambda>e. (site e, site_count e)) (top_blocked_detail (get_stats a)) = top_blocked (get_stats a) \<and>
   (\<forall>e \<in> set (top_blocked_detail (get_stats a)).
      top_n_of snd (dict_get_or (blocked_sites_detail (agg_stats a)) (site e) []) (site_sources e)) \<and>
   length (top_blocked_categories_detail (get_stats a)) \<le> 10 \<and>
   map (\<lambda>e. (category e, category_count e)) (top_blocked_categories_detail (get_stats a))
     = top_blocked_categories (get_stats a) \<and>
   (\<forall>e \<in> set (top_blocked_categories_detail (get_stats a)).
      top_n_of (\<lambda>x. snd (snd x))
        (concat (map (\<lambda>(srcip, destinations). map (\<lambda>(dest, dest_count). (srcip, dest, dest_count)) destinations)
                     (dict_get_or (blocked_categories_detail (agg_stats a)) (category e) [])))
        (category_sources e))"
proof -
  have 1: "top_n_of snd (by_srcip (agg_stats a)) (top_sources (get_stats a))"
    by (simp add: get_stats_def Let_def top_n_of_top10)
  have 2: "top_n_of snd (by_destination (agg_stats a)) (top_destinations (get_stats a))"
    by (simp add: get_stats_def Let_def top_n_of_top10)
  have 3: "top_n_of snd (blocked_sites (agg_stats a)) (top_blocked (get_stats a))"
    by (simp add: get_stats_def Let_def top_n_of_top10)
  have 4: "top_n_of snd (blocked_categories (agg_stats a)) (top_blocked_categories (get_stats a))"
    by (simp add: get_stats_def Let_def top_n_of_top10)
  have 5: "length (top_blocked_detail (get_stats a)) \<le> 10"
    by (simp add: get_stats_def Let_def length_top10)
  have 6: "map (\<lambda>e. (site e, site_count e)) (top_blocked_detail (get_stats a)) = top_blocked (get_stats a)"
    by (simp add: get_stats_def Let_def site_detail_of_def comp_def)
  have 7: "\<forall>e \<in> set (top_blocked_detail (get_stats a)).
      top_n_of snd (dict_get_or (blocked_sites_detail (agg_stats a)) (site e) []) (site_sources e)"
    by (auto simp: get_stats_def Let_def site_detail_of_def top_n_of_top10)
  have 8: "length (top_blocked_categories_detail (get_stats a)) \<le> 10"
    by (simp add: get_stats_def Let_def length_top10)
  have 9: "map (\<lambda>e. (category e, category_count e)) (top_blocked_categories_detail (get_stats a))
     = top_blocked_categories (get_stats a)"
    by (simp add: get_stats_def Let_def category_detail_of_def comp_def)
  have 10: "\<forall>e \<in> set (top_blocked_categories_detail (get_stats a)).
      top_n_of (\<lambda>x. snd (snd x))
        (concat (map (\<lambda>(srcip, destinations). map (\<lambda>(dest, dest_count). (srcip, dest, dest_count)) destinations)
                     (dict_get_or (blocked_categories_detail (agg_stats a)) (category e) [])))
        (category_sources e)"
    using top_n_of_top10 [of "\<lambda>x. snd (snd x)"]
    by (auto simp: get_stats_def Let_def category_detail_of_def flattened_def)
  from 1 2 3 4 5 6 7 8 9 10 show ?thesis by blast
qed

theorem top_lists_witness:
  "top_n_of snd [(PStr ''10.0.0.6'', 1), (PStr ''10.0.0.5'', 2)]
     (top_sources (get_stats (ingest
        [[(''type'', PStr ''utm''), (''action'', PStr ''blocked''), (''srcip'', PStr ''10.0.0.6''),
          (''hostname'', PStr ''a.com''), (''catdesc'', PStr ''Games'')],
         [(''type'', PStr ''utm''), (''action'', PStr ''blocked''), (''srcip'', PStr ''10.0.0.5''),
          (''hostname'', PStr ''b.com''), (''catdesc'', PStr ''Games'')],
         [(''type'', PStr ''utm''), (''action'', PStr ''blocked''), (''srcip'', PStr ''10.0.0.5''),
          (''hostname'', PStr ''b.com''), (''catdesc'', PStr ''Games'')]]
        (init_aggregator 1000)))) \<and>
   top_n_of snd [(PStr ''10.0.0.5'', 2)] [(PStr ''10.0.0.5'', 2)] \<and>
   top_n_of snd [(PStr ''10.0.0.6'', 1)] [(PStr ''10.0.0.6'', 1)] \<and>
   top_n_of (\<lambda>x. snd (snd x))
     [(PStr ''10.0.0.6'', PStr ''a.com'', 1), (PStr ''10.0.0.5'', PStr ''b.com'', 2)]
     [(PStr ''10.0.0.5'', PStr ''b.com'', 2), (PStr ''10.0.0.6'', PStr ''a.com'', 1)]"
proof -
  let ?a = "ingest
        [[(''type'', PStr ''utm''), (''action'', PStr ''blocked''), (''srcip'', PStr ''10.0.0.6''),
          (''hostname'', PStr ''a.com''), (''catdesc'', PStr ''Games'')],
         [(''type'', PStr ''utm''), (''action'', PStr ''blocked''), (''srcip'', PStr ''10.0.0.5''),
          (''hostname'', PStr ''b.com''), (''catdesc'', PStr ''Games'')],
         [(''type'', PStr ''utm''), (''action'', PStr ''blocked''), (''srcip'', PStr ''10.0.0.5''),
          (''hostname'', PStr ''b.com''), (''catdesc'', PStr ''Games'')]]
        (init_aggregator 1000)"
  have s: "by_srcip (agg_stats ?a) = [(PStr ''10.0.0.6'', 1), (PStr ''10.0.0.5'', 2)]"
    by code_simp
  have d: "top_blocked_detail (get_stats ?a) =
      [\<lparr>site = PStr ''b.com'', site_count = 2, site_sources = [(PStr ''10.0.0.5'', 2)]\<rparr>,
       \<lparr>site = PStr ''a.com'', site_count = 1, site_sources = [(PStr ''10.0.0.6'', 1)]\<rparr>]"
    by code_simp
  have sd: "blocked_sites_detail (agg_stats ?a) =
      [(PStr ''a.com'', [(PStr ''10.0.0.6'', 1)]), (PStr ''b.com'', [(PStr ''10.0.0.5'', 2)])]"
    by code_simp
  have c: "top_blocked_categories_detail (get_stats ?a) =
      [\<lparr>category = PStr ''Games'', category_count = 3,
        category_sources = [(PStr ''10.0.0.5'', PStr ''b.com'', 2), (PStr ''10.0.0.6'', PStr ''a.com'', 1)]\<rparr>]"
    by code_simp
  have cd: "concat (map (\<lambda>(srcip, destinations). map (\<lambda>(dest, dest_count). (srcip, dest, dest_count)) destinations)
                     (dict_get_or (blocked_categories_detail (agg_stats ?a)) (PStr ''Games'') [])) =
      [(PStr ''10.0.0.6'', PStr ''a.com'', 1), (PStr ''10.0.0.5'', PStr ''b.com'', 2)]"
    by code_simp
  note t = top_lists [of ?a]
  from t have "top_n_of snd (by_srcip (agg_stats ?a)) (top_sources (get_stats ?a))"
    by blast
  then have 1: "top_n_of snd [(PStr ''10.0.0.6'', 1), (PStr ''10.0.0.5'', 2)] (top_sources (get_stats ?a))"
    unfolding s .
  from t have "\<forall>e \<in> set (top_blocked_detail (get_stats ?a)).
      top_n_of snd (dict_get_or (blocked_sites_detail (agg_stats ?a)) (site e) []) (site_sources e)"
    by blast
  then have "\<forall>e \<in> set [\<lparr>site = PStr ''b.com'', site_count = 2, site_sources = [(PStr ''10.0.0.5'', 2)]\<rparr>,
       \<lparr>site = PStr ''a.com'', site_count = 1, site_sources = [(PStr ''10.0.0.6'', 1)]\<rparr>].
      top_n_of snd (dict_get_or [(PStr ''a.com'', [(PStr ''10.0.0.6'', 1)]), (PStr ''b.com'', [(PStr ''10.0.0.5'', 2)])]
         (site e) []) (site_sources e)"
    unfolding d sd .
  then have 2: "top_n_of snd [(PStr ''10.0.0.5'', 2)] [(PStr ''10.0.0.5'', 2)] \<and>
      top_n_of snd [(PStr ''10.0.0.6'', 1)] [(PStr ''10.0.0.6'', 1)]"
    by (simp add: dict_get_or_def)
  from t have "\<forall>e \<in> set (top_blocked_categories_detail (get_stats ?a)).
      top_n_of (\<lambda>x. snd (snd x))
        (concat (map (\<lambda>(srcip, destinations). map (\<lambda>(dest, dest_count). (srcip, dest, dest_count)) destinations)
                     (dict_get_or (blocked_categories_detail (agg_stats ?a)) (category e) [])))
        (category_sources e)"
    by blast
  then have "\<forall>e \<in> set [\<lparr>category = PStr ''Games'', category_count = 3,
        category_sources = [(PStr ''10.0.0.5'', PStr ''b.com'', 2), (PStr ''10.0.0.6'', PStr ''a.com'', 1)]\<rparr>].
      top_n_of (\<lambda>x. snd (snd x))
        (concat (map (\<lambda>(srcip, destinations). map (\<lambda>(dest, dest_count). (srcip, dest, dest_count)) destinations)
                     (dict_get_or (blocked_categories_detail (agg_stats ?a)) (category e) [])))
        (category_sources e)"
    unfolding c .
  then have "top_n_of (\<lambda>x. snd (snd x))
        (concat (map (\<lambda>(srcip, destinations). map (\<lambda>(dest, dest_count). (srcip, dest, dest_count)) destinations)
                     (dict_get_or (blocked_categories_detail (agg_stats ?a)) (PStr ''Games'') [])))
        [(PStr ''10.0.0.5'', PStr ''b.com'', 2), (PStr ''10.0.0.6'', PStr ''a.com'', 1)]"
    by (simp del: ingest.simps)
  then have 3: "top_n_of (\<lambda>x. snd (snd x))
     [(PStr ''10.0.0.6'', PStr ''a.com'', 1), (PStr ''10.0.0.5'', PStr ''b.com'', 2)]
     [(PStr ''10.0.0.5'', PStr ''b.com'', 2), (PStr ''10.0.0.6'', PStr ''a.com'', 1)]"
    unfolding cd .
  from 1 2 3 show ?thesis by blast
qed

text \<open>
  C5 as the specification states it has ties broken by first-seen order in every list.
  Three blocked web-filter records of one category, from 10.0.0.1 to a.com, from 10.0.0.2
  to a.com and from 10.0.0.1 to b.com, give the category the list (10.0.0.1, a.com),
  (10.0.0.1, b.com), (10.0.0.2, a.com), each with count 1: the pair seen last stands
  before the pair seen second.
\<close>

theorem first_seen_counterexample:
  "concat (map category_sources (top_blocked_categories_detail (get_stats (ingest
     [[(''type'', PStr ''utm''), (''subtype'', PStr ''webfilter''), (''action'', PStr ''blocked''),
       (''srcip'', PStr ''10.0.0.1''), (''hostname'', PStr ''a.com''), (''catdesc'', PStr ''Games'')],
      [(''type'', PStr ''utm''), (''subtype'', PStr ''webfilter''), (''action'', PStr ''blocked''),
       (''srcip'', PStr ''10.0.0.2''), (''hostname'', PStr ''a.com''), (''catdesc'', PStr ''Games'')],
      [(''type'', PStr ''utm''), (''subtype'', PStr ''webfilter''), (''action'', PStr ''blocked''),
       (''srcip'', PStr ''10.0.0.1''), (''hostname'', PStr ''b.com''), (''catdesc'', PStr ''Games'')]]
     (init_aggregator 1000)))))
   = [(PStr ''10.0.0.1'', PStr ''a.com'', 1), (PStr ''10.0.0.1'', PStr ''b.com'', 1),
      (PStr ''10.0.0.2'', PStr ''a.com'', 1)] \<and>
   \<not> spec_top_first_seen
     [[(''type'', PStr ''utm''), (''subtype'', PStr ''webfilter''), (''action'', PStr ''blocked''),
       (''srcip'', PStr ''10.0.0.1''), (''hostname'', PStr ''a.com''), (''catdesc'', PStr ''Games'')],
      [(''type'', PStr ''utm''), (''subtype'', PStr ''webfilter''), (''action'', PStr ''blocked''),
       (''srcip'', PStr ''10.0.0.2''), (''hostname'', PStr ''a.com''), (''catdesc'', PStr ''Games'')],
      [(''type'', PStr ''utm''), (''subtype'', PStr ''webfilter''), (''action'', PStr ''blocked''),
       (''srcip'', PStr ''10.0.0.1''), (''hostname'', PStr ''b.com''), (''catdesc'', PStr ''Games'')]]
     (concat (map category_sources (top_blocked_categories_detail (get_stats (ingest
       [[(''type'', PStr ''utm''), (''subtype'', PStr ''webfilter''), (''action'', PStr ''blocked''),
         (''srcip'', PStr ''10.0.0.1''), (''hostname'', PStr ''a.com''), (''catdesc'', PStr ''Games'')],
        [(''type'', PStr ''utm''), (''subtype'', PStr ''webfilter''), (''action'', PStr ''blocked''),
         (''srcip'', PStr ''10.0.0.2''), (''hostname'', PStr ''a.com''), (''catdesc'', PStr ''Games'')],
        [(''type'', PStr ''utm''), (''subtype'', PStr ''webfilter''), (''action'', PStr ''blocked''),
         (''srcip'', PStr ''10.0.0.1''), (''hostname'', PStr ''b.com''), (''catdesc'', PStr ''Games'')]]
       (init_aggregator 1000))))))"
  by code_simp

section \<open>Properties of the subscriber\<close>

lemma paused_ignores_logs:
  "isPaused c \<Longrightarrow> run tk (map (\<lambda>l. Message (Log l)) ls) c = c"
  by (induction ls) simp_all

lemma run_append: "run tk (es @ fs) c = run tk fs (run tk es c)"
  by (induction es arbitrary: c) simp_all

text \<open>
  C9, as amended. While the pause flag is set, any number of live records leaves the
  subscriber's state untouched; clearing the flag brings none of them back, the run goes
  on as if they had never arrived; a statistics update, however, is applied while paused
  exactly as it is when not paused.
\<close>

theorem paused_subscriber:
  "run tk (map (\<lambda>l. Message (Log l)) ls) (pauseUpdates True c) = pauseUpdates True c \<and>
   run tk (PauseUpdates True # map (\<lambda>l. Message (Log l)) ls @ PauseUpdates False # es) c
     = run tk (PauseUpdates True # PauseUpdates False # es) c \<and>
   onmessage tk (StatsUpdate d) (pauseUpdates True c)
     = pauseUpdates True (onmessage tk (StatsUpdate d) (pauseUpdates False c))"
proof -
  have p: "isPaused (pauseUpdates True c)" by (simp add: pauseUpdates_def)
  have 1: "run tk (map (\<lambda>l. Message (Log l)) ls) (pauseUpdates True c) = pauseUpdates True c"
    using p by (rule paused_ignores_logs)
  have 2: "run tk (PauseUpdates True # map (\<lambda>l. Message (Log l)) ls @ PauseUpdates False # es) c
     = run tk (PauseUpdates True # PauseUpdates False # es) c"
    by (simp add: run_append 1)
  have 3: "onmessage tk (StatsUpdate d) (pauseUpdates True c)
     = pauseUpdates True (onmessage tk (StatsUpdate d) (pauseUpdates False c))"
    by (simp add: pauseUpdates_def on_stats_update_def Let_def split: option.splits)
  from 1 2 3 show ?thesis by blast
qed

text \<open>
  C9 as the specification states it has a paused subscriber receive no statistics update
  either; the handler applies one that carries \<^verbatim>\<open>top_blocked\<close>.
\<close>

theorem paused_stats_update_counterexample:
  "\<not> spec_paused_receives_nothing (\<lambda>l. (0, 0))
       (StatsUpdate \<lparr>upd_top_sources = None, upd_top_destinations = None,
                     upd_top_blocked = Some [(PStr ''example.com'', 1)],
                     upd_top_blocked_categories = None, upd_top_blocked_detail = None,
                     upd_top_blocked_categories_detail = None\<rparr>)
       initial_client"
  by (simp add: spec_paused_receives_nothing_def on_stats_update_def pauseUpdates_def
      initial_client_def present_def)

end
